theory Spec2Isabelle
  imports Main "HOL-Library.Sublist" "HOL-Library.AList" "HOL-Library.Word"
begin

section \<open>Strings\<close>

text \<open>
  File names, mod names and version labels are JavaScript strings. They are modelled as
  \<^typ>\<open>string\<close>, a character standing for the code point of the same number, so the
  strings of the model are the strings over the code points below 256. On these
  \<open>toLowerCase\<close> maps \<open>A\<close>..\<open>Z\<close> to \<open>a\<close>..\<open>z\<close> and the capitals \<open>C0\<close>..\<open>DE\<close>
  (without \<open>D7\<close>, the multiplication sign) to \<open>E0\<close>..\<open>FE\<close>, and the class \<open>\s\<close> is
  tab, line feed, vertical tab, form feed, carriage return, space and the no-break
  space \<open>A0\<close>.
\<close>

definition isUpper :: "char \<Rightarrow> bool" where
  "isUpper c = (65 \<le> (of_char c :: nat) \<and> (of_char c :: nat) \<le> 90)"

definition isLatin1Upper :: "char \<Rightarrow> bool" where
  "isLatin1Upper c =
     (192 \<le> (of_char c :: nat) \<and> (of_char c :: nat) \<le> 222 \<and> (of_char c :: nat) \<noteq> 215)"

definition lowerChar :: "char \<Rightarrow> char" where
  "lowerChar c =
     (if isUpper c \<or> isLatin1Upper c then char_of ((of_char c :: nat) + 32) else c)"

definition toLowerCase :: "string \<Rightarrow> string" where
  "toLowerCase s = map lowerChar s"

definition isWhitespace :: "char \<Rightarrow> bool" where
  "isWhitespace c = ((of_char c :: nat) \<in> {9, 10, 11, 12, 13, 32, 160})"

text \<open>\<open>s.replace(/\s+/g, '-')\<close>: every maximal run of whitespace becomes one hyphen.\<close>

function replaceWhitespace :: "string \<Rightarrow> string" where
  "replaceWhitespace [] = []"
| "replaceWhitespace (c # cs) =
     (if isWhitespace c then CHR ''-'' # replaceWhitespace (dropWhile isWhitespace cs)
      else c # replaceWhitespace cs)"
  by pat_completeness auto
termination
  by (relation "measure length") (auto simp: length_dropWhile_le less_Suc_eq_le)

text \<open>\<open>mod.name.toLowerCase().replace(/\s+/g, '-')\<close>, the base name of a manifest entry
  (written inline in \<open>syncMods\<close> and \<open>processModDownload\<close>).\<close>

definition configModName :: "string \<Rightarrow> string" where
  "configModName n = replaceWhitespace (toLowerCase n)"

text \<open>\<open>name.endsWith('.jar')\<close> is case-sensitive; \<open>/\.jar$/i\<close> is not.\<close>

definition endsWithJar :: "string \<Rightarrow> bool" where
  "endsWithJar n = suffix ''.jar'' n"

definition extractModBaseName :: "string \<Rightarrow> string" where
  "extractModBaseName fileName =
     toLowerCase (if suffix ''.jar'' (toLowerCase fileName)
                  then take (length fileName - 4) fileName else fileName)"

text \<open>JavaScript truthiness of an optional string: \<open>undefined\<close> and \<open>''\<close> are falsy.\<close>

fun truthy :: "string option \<Rightarrow> bool" where
  "truthy None = False"
| "truthy (Some s) = (s \<noteq> [])"

text \<open>\<open>a || b\<close> on an optional string and a default.\<close>

fun orElse :: "string option \<Rightarrow> string \<Rightarrow> string" where
  "orElse None d = d"
| "orElse (Some s) d = (if s = [] then d else s)"

section \<open>The mods directory\<close>

type_synonym byte = "8 word"


datatype dir_entry = RegularFile "byte list" | NonFile nat

fun isFile :: "dir_entry \<Rightarrow> bool" where
  "isFile (RegularFile _) = True"
| "isFile (NonFile _) = False"

fun statSize :: "dir_entry \<Rightarrow> nat" where
  "statSize (RegularFile bs) = length bs"
| "statSize (NonFile n) = n"

type_synonym directory = "(string \<times> dir_entry) list"

datatype error =
    UrlRequiresDownloadUrl
  | CurseForgeNotImplemented
  | NoProjectsFound
  | SearchError error
  | ModrinthError error
  | SpecificVersionNotFound
  | NoCompatibleVersion
  | TypeError
  | NetworkError
  | HttpError
  | NoReader
  | EmptyFile
  | NotAJar
  | InvalidJar error
  | IoError
  | UnsupportedSource
  | DownloadModError error

datatype event =
    LogPruneActive
  | LogSafeMode
  | LogRemovingUnlisted string
  | LogRemovingOld string
  | LogCouldNotRemove string error
  | LogVerified string
  | LogDownloading string
  | LogInstalled string
  | LogDownloaded string
  | LogErrorProcessing string error
  | IoRemove string
  | IoDownload string string

text \<open>
  The state a sync pass works on: the directory, and the trace of what the pass has
  printed (\<open>Log...\<close>) and asked of the file system and the network (\<open>Io...\<close>).
\<close>

record sync_state =
  dir :: directory
  trace :: "event list"

definition emit :: "event \<Rightarrow> sync_state \<Rightarrow> sync_state" where
  "emit e s = s\<lparr>trace := trace s @ [e]\<rparr>"

section \<open>Artifact validator\<close>

text \<open>
  \<open>validateJarFile\<close>: \<open>Deno.stat\<close>, then open for reading, read into a zeroed
  four-byte buffer, close, compare with \<open>50 4B 03 04\<close>. Every failure is rethrown as
  \<open>Archivo JAR inv\'alido: ...\<close>. Reading something that is not a regular file fails.
\<close>

definition readBuffer4 :: "byte list \<Rightarrow> byte list" where
  "readBuffer4 bs = take 4 bs @ replicate (4 - length bs) 0"

definition validateJarFile :: "string \<Rightarrow> sync_state \<Rightarrow> sync_state \<times> (error + unit)" where
  "validateJarFile filePath s =
     (case map_of (dir s) filePath of
        None \<Rightarrow> (s, Inl (InvalidJar IoError))
      | Some e \<Rightarrow>
          if statSize e = 0 then (s, Inl (InvalidJar EmptyFile))
          else (case e of
                  NonFile _ \<Rightarrow> (s, Inl (InvalidJar IoError))
                | RegularFile bs \<Rightarrow>
                    (let buffer = readBuffer4 bs in
                     if buffer ! 0 \<noteq> 0x50 \<or> buffer ! 1 \<noteq> 0x4B \<or> buffer ! 2 \<noteq> 0x03 \<or> buffer ! 3 \<noteq> 0x04
                     then (s, Inl (InvalidJar NotAJar))
                     else (s, Inr ()))))"

section \<open>Manifest and registry data\<close>

datatype ModSource = Curseforge | Modrinth | Url

record ModConfig =
  name :: string
  version :: "string option"
  source :: "ModSource option"
  projectId :: "string option"
  downloadUrl :: "string option"
  fileName :: "string option"

record ModpackConfig =
  modLoader :: string
  gameVersion :: string
  prune :: "bool option"
  mods :: "ModConfig list"

record SearchResult =
  title :: string
  slug :: string
  project_id :: string
  categories :: "string list"

record VersionFile =
  url :: string
  filename :: string

record Version =
  game_versions :: "string list"
  loaders :: "string list"
  version_number :: string
  files :: "VersionFile list"

text \<open>
  What the outside world answers during one pass: the registry's search hits for a query
  (with the loader and game version facets), the version list of a project, the outcome
  of fetching a download URL, which names \<open>Deno.remove\<close> refuses to delete, at which
  names \<open>Deno.open\<close> refuses to create or open a file for writing (a missing
  sub-directory, a read-only directory), and how many bytes the platform accepts into a
  file before a write to it fails (a full disk); \<open>None\<close> when no write fails.
\<close>

datatype fetch_result =
    FetchRejected
  | ResponseNotOk
  | NoBody
  | Body "byte list"
  | BodyInterrupted "byte list"

record env =
  search_hits :: "string \<Rightarrow> string \<Rightarrow> string \<Rightarrow> error + SearchResult list"
  project_versions :: "string \<Rightarrow> error + Version list"
  fetch_url :: "string \<Rightarrow> fetch_result"
  remove_denied :: "string \<Rightarrow> bool"
  open_denied :: "string \<Rightarrow> bool"
  write_limit :: "string \<Rightarrow> nat option"
  readDir_fails :: bool

section \<open>Registry resolver\<close>

text \<open>\<open>Array.prototype.find\<close> is \<^const>\<open>List.find\<close>; \<open>includes\<close> on an array is
  membership, on a string it is \<^const>\<open>sublist\<close>.\<close>

definition searchModrinthProject :: "env \<Rightarrow> ModpackConfig \<Rightarrow> string \<Rightarrow> error + string" where
  "searchModrinthProject ev cfg modName =
     (case search_hits ev modName (modLoader cfg) (gameVersion cfg) of
        Inl e \<Rightarrow> Inl (SearchError e)
      | Inr hits \<Rightarrow>
          (case hits of
             [] \<Rightarrow> Inl (SearchError NoProjectsFound)
           | first # _ \<Rightarrow>
               (let exact = List.find (\<lambda>hit. toLowerCase (title hit) = toLowerCase modName
                                             \<or> toLowerCase (slug hit) = toLowerCase modName) hits;
                    similar = (case exact of
                                 Some h \<Rightarrow> Some h
                               | None \<Rightarrow> List.find (\<lambda>hit. sublist (toLowerCase modName) (toLowerCase (title hit))
                                                           \<or> sublist (toLowerCase (title hit)) (toLowerCase modName)) hits);
                    bestMatch = (case similar of Some h \<Rightarrow> h | None \<Rightarrow> first)
                in Inr (project_id bestMatch))))"

text \<open>\<open>v.version_number.replace(/^v/, '')\<close>: one leading lower-case \<open>v\<close> is dropped.\<close>

fun stripLeadingV :: "string \<Rightarrow> string" where
  "stripLeadingV [] = []"
| "stripLeadingV (c # cs) = (if c = CHR ''v'' then cs else c # cs)"

definition compatible :: "ModpackConfig \<Rightarrow> Version \<Rightarrow> bool" where
  "compatible cfg v = (gameVersion cfg \<in> set (game_versions v) \<and> modLoader cfg \<in> set (loaders v))"

text \<open>The version selection of \<open>getModrinthDownloadUrl\<close>: the exact search, the flexible
  search, or the first compatible version when nothing is pinned.\<close>

definition selectVersion :: "ModpackConfig \<Rightarrow> ModConfig \<Rightarrow> Version list \<Rightarrow> error + Version" where
  "selectVersion cfg md versions =
     (if truthy (version md) then
        (let pin = the (version md);
             exact = List.find (\<lambda>v. compatible cfg v \<and> version_number v = pin) versions;
             flexible = (case exact of
                           Some v \<Rightarrow> Some v
                         | None \<Rightarrow> List.find (\<lambda>v. compatible cfg v \<and>
                                       (version_number v = CHR ''v'' # pin
                                        \<or> stripLeadingV (version_number v) = pin)) versions)
         in case flexible of None \<Rightarrow> Inl SpecificVersionNotFound | Some v \<Rightarrow> Inr v)
      else (case List.find (compatible cfg) versions of
              None \<Rightarrow> Inl NoCompatibleVersion
            | Some v \<Rightarrow> Inr v))"

record ModrinthInfo =
  info_url :: string
  info_version :: string
  info_fileName :: string

definition getModrinthDownloadUrl :: "env \<Rightarrow> ModpackConfig \<Rightarrow> ModConfig \<Rightarrow> error + ModrinthInfo" where
  "getModrinthDownloadUrl ev cfg md =
     (case (if truthy (projectId md) then Inr (the (projectId md))
            else searchModrinthProject ev cfg (name md)) of
        Inl e \<Rightarrow> Inl (ModrinthError e)
      | Inr pid \<Rightarrow>
          (case project_versions ev pid of
             Inl e \<Rightarrow> Inl (ModrinthError e)
           | Inr versions \<Rightarrow>
               (case selectVersion cfg md versions of
                  Inl e \<Rightarrow> Inl (ModrinthError e)
                | Inr compatibleVersion \<Rightarrow>
                    (case files compatibleVersion of
                       [] \<Rightarrow> Inl (ModrinthError TypeError)
                     | primaryFile # _ \<Rightarrow>
                         Inr \<lparr>info_url = url primaryFile,
                              info_version = version_number compatibleVersion,
                              info_fileName = filename primaryFile\<rparr>))))"

definition getCurseForgeDownloadUrl :: "ModConfig \<Rightarrow> error + string" where
  "getCurseForgeDownloadUrl md = Inl CurseForgeNotImplemented"

definition generateFileName :: "ModConfig \<Rightarrow> string" where
  "generateFileName md =
     (if truthy (fileName md) then the (fileName md)
      else toLowerCase (replaceWhitespace (name md)) @ ''-'' @ orElse (version md) ''latest'' @ ''.jar'')"

section \<open>Reconciliation engine\<close>

definition getCurrentMods :: "env \<Rightarrow> sync_state \<Rightarrow> string list" where
  "getCurrentMods ev s =
     (if readDir_fails ev then []
      else map fst (filter (\<lambda>(n, e). isFile e \<and> endsWithJar n) (dir s)))"

text \<open>\<open>Deno.remove\<close> of a name in the mods directory: it fails when the name is absent
  or the removal is refused, and otherwise drops the entry.\<close>

definition denoRemove :: "env \<Rightarrow> string \<Rightarrow> sync_state \<Rightarrow> sync_state \<times> (error + unit)" where
  "denoRemove ev n s =
     (let s1 = emit (IoRemove n) s in
      if map_of (dir s) n = None \<or> remove_denied ev n then (s1, Inl IoError)
      else (s1\<lparr>dir := AList.delete n (dir s)\<rparr>, Inr ()))"

text \<open>Writing \<open>bs\<close> from offset 0 into a file opened with \<open>create, write\<close> (no truncation).
  In \<open>downloadFile\<close> the file is opened after the response has been checked; the open
  fails when something other than a regular file is at the path or the platform refuses
  it, and then nothing is written.\<close>

definition overwrite :: "byte list \<Rightarrow> byte list \<Rightarrow> byte list" where
  "overwrite old bs = bs @ drop (length bs) old"

text \<open>The bytes of a body that the writes to the file at a path accept.\<close>

definition accepted :: "env \<Rightarrow> string \<Rightarrow> byte list \<Rightarrow> byte list" where
  "accepted ev filePath bs =
     (case write_limit ev filePath of None \<Rightarrow> bs | Some n \<Rightarrow> take n bs)"

definition downloadFile :: "env \<Rightarrow> string \<Rightarrow> string \<Rightarrow> sync_state \<Rightarrow> sync_state \<times> (error + unit)" where
  "downloadFile ev u filePath s =
     (let s1 = emit (IoDownload u filePath) s in
      if u = [] then (s1, Inl TypeError)
      else (case fetch_url ev u of
              FetchRejected \<Rightarrow> (s1, Inl NetworkError)
            | ResponseNotOk \<Rightarrow> (s1, Inl HttpError)
            | r \<Rightarrow>
                if open_denied ev filePath then (s1, Inl IoError)
                else
                  (case map_of (dir s) filePath of
                     Some (NonFile _) \<Rightarrow> (s1, Inl IoError)
                   | other \<Rightarrow>
                       (let old = (case other of Some (RegularFile bs) \<Rightarrow> bs | _ \<Rightarrow> []);
                            put = (\<lambda>bs. s1\<lparr>dir := AList.update filePath (RegularFile (overwrite old bs)) (dir s)\<rparr>)
                        in case r of
                             NoBody \<Rightarrow> (put [], Inl NoReader)
                           | Body bs \<Rightarrow>
                               if accepted ev filePath bs = bs then (put bs, Inr ())
                               else (put (accepted ev filePath bs), Inl IoError)
                           | BodyInterrupted bs \<Rightarrow>
                               if accepted ev filePath bs = bs then (put bs, Inl NetworkError)
                               else (put (accepted ev filePath bs), Inl IoError)
                           | _ \<Rightarrow> (s1, Inl NetworkError)))))"

text \<open>Step 1 of \<open>processModDownload\<close>: the expected file name, the download URL and the
  version shown.\<close>

definition resolveTarget :: "env \<Rightarrow> ModpackConfig \<Rightarrow> ModConfig \<Rightarrow> error + (string \<times> string \<times> string)" where
  "resolveTarget ev cfg md =
     (if source md = Some Modrinth then
        (case getModrinthDownloadUrl ev cfg md of
           Inl e \<Rightarrow> Inl e
         | Inr info \<Rightarrow> Inr (info_fileName info, info_url info, info_version info))
      else if source md = Some Curseforge then
        (case getCurseForgeDownloadUrl md of
           Inl e \<Rightarrow> Inl e
         | Inr u \<Rightarrow> Inr (orElse (fileName md) (generateFileName md), u, orElse (version md) ''latest''))
      else if \<not> truthy (downloadUrl md) \<and> source md = Some Url then Inl UrlRequiresDownloadUrl
      else Inr (orElse (fileName md) (generateFileName md),
                orElse (downloadUrl md) [],
                orElse (version md) ''custom''))"

text \<open>Step 2: the installed files that start with the entry's base name and are not the
  expected file; each removal has its own \<open>try\<close>/\<open>catch\<close>.\<close>

definition duplicatesOf :: "ModConfig \<Rightarrow> string \<Rightarrow> string list \<Rightarrow> string list" where
  "duplicatesOf md expectedFileName currentMods =
     filter (\<lambda>current. prefix (configModName (name md)) (extractModBaseName current)
                        \<and> current \<noteq> expectedFileName) currentMods"

fun removeDuplicates :: "env \<Rightarrow> string list \<Rightarrow> sync_state \<Rightarrow> sync_state" where
  "removeDuplicates ev [] s = s"
| "removeDuplicates ev (f # fs) s =
     (case denoRemove ev f (emit (LogRemovingOld f) s) of
        (s1, Inl e) \<Rightarrow> removeDuplicates ev fs (emit (LogCouldNotRemove f e) s1)
      | (s1, Inr _) \<Rightarrow> removeDuplicates ev fs s1)"

text \<open>The body of the \<open>try\<close> block of \<open>processModDownload\<close>.\<close>

definition processModDownload_try ::
  "env \<Rightarrow> ModpackConfig \<Rightarrow> ModConfig \<Rightarrow> string list \<Rightarrow> sync_state \<Rightarrow> sync_state \<times> (error + unit)" where
  "processModDownload_try ev cfg md currentMods s =
     (case resolveTarget ev cfg md of
        Inl e \<Rightarrow> (s, Inl e)
      | Inr (expectedFileName, dlUrl, versionDisplay) \<Rightarrow>
          (let s1 = removeDuplicates ev (duplicatesOf md expectedFileName currentMods) s in
           if (case map_of (dir s1) expectedFileName of None \<Rightarrow> False | Some e \<Rightarrow> statSize e > 0)
           then (emit (LogVerified (name md)) s1, Inr ())
           else (case downloadFile ev dlUrl expectedFileName (emit (LogDownloading (name md)) s1) of
                   (s2, Inl e) \<Rightarrow> (s2, Inl e)
                 | (s2, Inr _) \<Rightarrow>
                     (case validateJarFile expectedFileName s2 of
                        (s3, Inl e) \<Rightarrow> (s3, Inl e)
                      | (s3, Inr _) \<Rightarrow> (emit (LogInstalled expectedFileName) s3, Inr ())))))"

text \<open>\<open>downloadMod\<close>, which the present \<open>processModDownload\<close> does not call: resolve
  the URL by source, download, validate; on any error remove the file at the path,
  ignoring a failure of the removal, and rethrow.\<close>

definition downloadMod ::
  "env \<Rightarrow> ModpackConfig \<Rightarrow> ModConfig \<Rightarrow> string \<Rightarrow> sync_state \<Rightarrow> sync_state \<times> (error + unit)" where
  "downloadMod ev cfg md filePath s =
     (case (case (case source md of
                    Some Modrinth \<Rightarrow>
                      (case getModrinthDownloadUrl ev cfg md of
                         Inl e \<Rightarrow> Inl e
                       | Inr info \<Rightarrow> Inr (info_url info))
                  | Some Curseforge \<Rightarrow> getCurseForgeDownloadUrl md
                  | Some Url \<Rightarrow> Inr (case downloadUrl md of None \<Rightarrow> [] | Some u \<Rightarrow> u)
                  | None \<Rightarrow> Inl UnsupportedSource) of
             Inl e \<Rightarrow> (s, Inl e)
           | Inr u \<Rightarrow>
               (case downloadFile ev u filePath s of
                  (s1, Inl e) \<Rightarrow> (s1, Inl e)
                | (s1, Inr _) \<Rightarrow>
                    (case validateJarFile filePath s1 of
                       (s2, Inl e) \<Rightarrow> (s2, Inl e)
                     | (s2, Inr _) \<Rightarrow> (emit (LogDownloaded (name md)) s2, Inr ())))) of
        (s1, Inl e) \<Rightarrow> (fst (denoRemove ev filePath s1), Inl (DownloadModError e))
      | (s1, Inr _) \<Rightarrow> (s1, Inr ()))"

text \<open>\<open>processModDownload\<close>: the \<open>try\<close> block with its \<open>catch\<close>, which prints the error.\<close>

definition processModDownload ::
  "env \<Rightarrow> ModpackConfig \<Rightarrow> ModConfig \<Rightarrow> string list \<Rightarrow> sync_state \<Rightarrow> sync_state \<times> (error + unit)" where
  "processModDownload ev cfg md currentMods s =
     (case processModDownload_try ev cfg md currentMods s of
        (s1, Inl e) \<Rightarrow> (emit (LogErrorProcessing (name md) e) s1, Inr ())
      | (s1, Inr _) \<Rightarrow> (s1, Inr ()))"

text \<open>The pruning loop of \<open>syncMods\<close>; a failing \<open>Deno.remove\<close> is not caught here.\<close>

fun pruneLoop :: "env \<Rightarrow> string list \<Rightarrow> string list \<Rightarrow> sync_state \<Rightarrow> sync_state \<times> (error + unit)" where
  "pruneLoop ev configModNames [] s = (s, Inr ())"
| "pruneLoop ev configModNames (currentMod # rest) s =
     (if \<not> list_ex (\<lambda>configName. sublist configName (extractModBaseName currentMod)) configModNames
      then (case denoRemove ev currentMod (emit (LogRemovingUnlisted currentMod) s) of
              (s1, Inl e) \<Rightarrow> (s1, Inl e)
            | (s1, Inr _) \<Rightarrow> pruneLoop ev configModNames rest s1)
      else pruneLoop ev configModNames rest s)"

text \<open>The loop over the manifest entries; an error escaping an entry would end it.\<close>

fun processLoop ::
  "env \<Rightarrow> ModpackConfig \<Rightarrow> string list \<Rightarrow> ModConfig list \<Rightarrow> sync_state \<Rightarrow> sync_state \<times> (error + unit)" where
  "processLoop ev cfg currentMods [] s = (s, Inr ())"
| "processLoop ev cfg currentMods (md # rest) s =
     (case processModDownload ev cfg md currentMods s of
        (s1, Inl e) \<Rightarrow> (s1, Inl e)
      | (s1, Inr _) \<Rightarrow> processLoop ev cfg currentMods rest s1)"

text \<open>The block \<open>if (this.config.prune !== false) ... else ...\<close> of \<open>syncMods\<close>.\<close>

definition pruneBlock :: "env \<Rightarrow> ModpackConfig \<Rightarrow> string list \<Rightarrow> sync_state \<Rightarrow> sync_state \<times> (error + unit)" where
  "pruneBlock ev cfg currentMods s =
     (if prune cfg \<noteq> Some False
      then pruneLoop ev (map (\<lambda>md. configModName (name md)) (mods cfg)) currentMods
             (emit LogPruneActive s)
      else (emit LogSafeMode s, Inr ()))"

definition syncMods :: "env \<Rightarrow> ModpackConfig \<Rightarrow> sync_state \<Rightarrow> sync_state \<times> (error + unit)" where
  "syncMods ev cfg s =
     (let currentMods = getCurrentMods ev s in
      case pruneBlock ev cfg currentMods s of
        (s1, Inl e) \<Rightarrow> (s1, Inl e)
      | (s1, Inr _) \<Rightarrow> processLoop ev cfg currentMods (mods cfg) s1)"

section \<open>Semantic versions\<close>

text \<open>
  Modelled from the spec: the functions \<open>parse\<close> and \<open>greaterThan\<close> of the imported
  package \<open>@std/semver\<close>, whose source is not part of the repository. The spec
  (section 4.4) says that the current and the remote version strings are parsed as
  semantic versions and compared for strictly greater. The model follows the semantic
  versioning grammar: an optional leading \<open>v\<close>, three numeric identifiers without
  leading zeros, an optional pre-release after \<open>-\<close>, optional build metadata after
  \<open>+\<close>; precedence ignores the build metadata.
\<close>

datatype update_error =
    GitHubApiError
  | FetchFailed
  | SemverTypeError
  | UnsupportedPlatform
  | AssetNotFound
  | UpdateDownloadError
  | DenoError
  | RenameCurrentFailed update_error
  | ApplyUpdateFailed update_error

datatype prerelease_id = NumericId nat | AlphaId string

record SemVer =
  major :: nat
  minor :: nat
  patch :: nat
  prerelease :: "prerelease_id list"
  build :: "string list"

definition isDigit :: "char \<Rightarrow> bool" where
  "isDigit c = (48 \<le> (of_char c :: nat) \<and> (of_char c :: nat) \<le> 57)"

definition isIdentChar :: "char \<Rightarrow> bool" where
  "isIdentChar c = (isDigit c \<or> isUpper c
                    \<or> (97 \<le> (of_char c :: nat) \<and> (of_char c :: nat) \<le> 122) \<or> c = CHR ''-'')"

definition digitsValue :: "string \<Rightarrow> nat" where
  "digitsValue s = foldl (\<lambda>n c. 10 * n + ((of_char c :: nat) - 48)) 0 s"

definition isNumericIdentifier :: "string \<Rightarrow> bool" where
  "isNumericIdentifier s = (s \<noteq> [] \<and> list_all isDigit s \<and> (s = ''0'' \<or> hd s \<noteq> CHR ''0''))"

fun splitOn :: "char \<Rightarrow> string \<Rightarrow> string list" where
  "splitOn sep [] = [[]]"
| "splitOn sep (c # cs) =
     (if c = sep then [] # splitOn sep cs
      else (case splitOn sep cs of [] \<Rightarrow> [[c]] | w # ws \<Rightarrow> (c # w) # ws))"

definition splitFirst :: "char \<Rightarrow> string \<Rightarrow> string \<times> string option" where
  "splitFirst sep s =
     (takeWhile (\<lambda>c. c \<noteq> sep) s,
      case dropWhile (\<lambda>c. c \<noteq> sep) s of [] \<Rightarrow> None | _ # r \<Rightarrow> Some r)"

definition parsePrereleaseId :: "string \<Rightarrow> prerelease_id option" where
  "parsePrereleaseId s =
     (if s \<noteq> [] \<and> list_all isDigit s
      then (if isNumericIdentifier s then Some (NumericId (digitsValue s)) else None)
      else if s \<noteq> [] \<and> list_all isIdentChar s then Some (AlphaId s) else None)"

fun allSome :: "'a option list \<Rightarrow> 'a list option" where
  "allSome [] = Some []"
| "allSome (None # _) = None"
| "allSome (Some x # xs) = (case allSome xs of None \<Rightarrow> None | Some ys \<Rightarrow> Some (x # ys))"

definition parse :: "string \<Rightarrow> update_error + SemVer" where
  "parse v =
     (let body = (case v of c # cs \<Rightarrow> if c = CHR ''v'' then cs else v | [] \<Rightarrow> v);
          (withoutBuild, buildPart) = splitFirst CHR ''+'' body;
          (core, prePart) = splitFirst CHR ''-'' withoutBuild;
          pre = (case prePart of None \<Rightarrow> Some []
                 | Some p \<Rightarrow> allSome (map parsePrereleaseId (splitOn CHR ''.'' p)));
          bld = (case buildPart of None \<Rightarrow> Some []
                 | Some b \<Rightarrow> if list_all (\<lambda>i. i \<noteq> [] \<and> list_all isIdentChar i) (splitOn CHR ''.'' b)
                             then Some (splitOn CHR ''.'' b) else None)
      in case (splitOn CHR ''.'' core, pre, bld) of
           ([ma, mi, pa], Some pr, Some bl) \<Rightarrow>
             if isNumericIdentifier ma \<and> isNumericIdentifier mi \<and> isNumericIdentifier pa
             then Inr \<lparr>major = digitsValue ma, minor = digitsValue mi, patch = digitsValue pa,
                       prerelease = pr, build = bl\<rparr>
             else Inl SemverTypeError
         | _ \<Rightarrow> Inl SemverTypeError)"

fun stringGreater :: "string \<Rightarrow> string \<Rightarrow> bool" where
  "stringGreater [] _ = False"
| "stringGreater (_ # _) [] = True"
| "stringGreater (a # as) (b # bs) =
     ((of_char a :: nat) > of_char b \<or> (a = b \<and> stringGreater as bs))"

fun idGreater :: "prerelease_id \<Rightarrow> prerelease_id \<Rightarrow> bool" where
  "idGreater (NumericId a) (NumericId b) = (a > b)"
| "idGreater (NumericId _) (AlphaId _) = False"
| "idGreater (AlphaId _) (NumericId _) = True"
| "idGreater (AlphaId a) (AlphaId b) = stringGreater a b"

fun idsGreater :: "prerelease_id list \<Rightarrow> prerelease_id list \<Rightarrow> bool" where
  "idsGreater [] _ = False"
| "idsGreater (_ # _) [] = True"
| "idsGreater (a # as) (b # bs) = (idGreater a b \<or> (a = b \<and> idsGreater as bs))"

definition prereleaseGreater :: "prerelease_id list \<Rightarrow> prerelease_id list \<Rightarrow> bool" where
  "prereleaseGreater a b =
     (if a = [] then b \<noteq> [] else if b = [] then False else idsGreater a b)"

definition greaterThan :: "SemVer \<Rightarrow> SemVer \<Rightarrow> bool" where
  "greaterThan a b =
     (major a > major b \<or> (major a = major b \<and>
       (minor a > minor b \<or> (minor a = minor b \<and>
         (patch a > patch b \<or> (patch a = patch b \<and>
           prereleaseGreater (prerelease a) (prerelease b)))))))"

section \<open>Self-update manager\<close>

definition APP_VERSION :: string where
  "APP_VERSION = ''1.0.1''"

definition releasesUrl :: string where
  "releasesUrl = ''https://api.github.com/repos/randygil/tn-mod-manager/releases/latest''"

record GitHubAsset =
  asset_name :: string
  browser_download_url :: string
  asset_size :: nat

record GitHubRelease =
  tag_name :: string
  assets :: "GitHubAsset list"

datatype fs_op =
    OpRemove string
  | OpOpen string
  | OpChmod string
  | OpRename string string
  | OpSpawn string

datatype update_event =
    LogDevMode
  | LogChecking
  | LogNewVersion string
  | LogUpToDate
  | LogUpdateError update_error
  | LogDownloadingUpdate string
  | LogUpdateSuccess
  | Fetch string
  | Fs fs_op

datatype release_response = ReleaseRejected | ReleaseNotOk | ReleaseJson GitHubRelease

text \<open>
  The surroundings of one run of the updater: the path and platform of the running
  binary, what the release feed and an asset URL answer, which file-system or process
  operations the platform refuses, and the exit code of the restarted child.
\<close>

record update_env =
  execPath :: string
  build_os :: string
  build_arch :: string
  release_feed :: release_response
  asset_fetch :: "string \<Rightarrow> fetch_result"
  op_denied :: "fs_op \<Rightarrow> bool"
  child_exit_code :: nat

record update_state =
  paths :: "string \<rightharpoonup> byte list"
  events :: "update_event list"

datatype check_outcome = Returned | Exited nat

definition emitU :: "update_event \<Rightarrow> update_state \<Rightarrow> update_state" where
  "emitU e s = s\<lparr>events := events s @ [e]\<rparr>"

definition fsRemove :: "update_env \<Rightarrow> string \<Rightarrow> update_state \<Rightarrow> update_state \<times> (update_error + unit)" where
  "fsRemove ev p s =
     (let s1 = emitU (Fs (OpRemove p)) s in
      if paths s p = None \<or> op_denied ev (OpRemove p) then (s1, Inl DenoError)
      else (s1\<lparr>paths := (paths s)(p := None)\<rparr>, Inr ()))"

definition fsRename :: "update_env \<Rightarrow> string \<Rightarrow> string \<Rightarrow> update_state \<Rightarrow> update_state \<times> (update_error + unit)" where
  "fsRename ev a b s =
     (let s1 = emitU (Fs (OpRename a b)) s in
      if paths s a = None \<or> op_denied ev (OpRename a b) then (s1, Inl DenoError)
      else (s1\<lparr>paths := (paths s)(b := paths s a, a := None)\<rparr>, Inr ()))"

definition cleanupOldVersions :: "update_env \<Rightarrow> update_state \<Rightarrow> update_state" where
  "cleanupOldVersions ev s = fst (fsRemove ev (execPath ev @ ''.old'') s)"

definition getLatestRelease :: "update_env \<Rightarrow> update_state \<Rightarrow> update_state \<times> (update_error + GitHubRelease)" where
  "getLatestRelease ev s =
     (let s1 = emitU (Fetch releasesUrl) s in
      case release_feed ev of
        ReleaseRejected \<Rightarrow> (s1, Inl FetchFailed)
      | ReleaseNotOk \<Rightarrow> (s1, Inl GitHubApiError)
      | ReleaseJson r \<Rightarrow> (s1, Inr r))"

definition getAssetForPlatform :: "update_env \<Rightarrow> GitHubAsset list \<Rightarrow> update_error + GitHubAsset" where
  "getAssetForPlatform ev as =
     (case (if build_os ev = ''windows'' \<and> build_arch ev = ''x86_64'' then Inr ''mod-manager-windows-x64.exe''
            else if build_os ev = ''linux'' \<and> build_arch ev = ''x86_64'' then Inr ''mod-manager-linux-x64''
            else if build_os ev = ''darwin'' \<and> build_arch ev = ''aarch64'' then Inr ''mod-manager-macos-arm64''
            else Inl UnsupportedPlatform) of
        Inl e \<Rightarrow> Inl e
      | Inr assetNamePattern \<Rightarrow>
          (case List.find (\<lambda>a. asset_name a = assetNamePattern) as of
             None \<Rightarrow> Inl AssetNotFound
           | Some a \<Rightarrow> Inr a))"

text \<open>Step 1 of \<open>performUpdate\<close>: fetch the asset, open the temporary file with
  \<open>create, write\<close>, pipe the body into it, and set the mode outside Windows.\<close>

definition downloadUpdate :: "update_env \<Rightarrow> GitHubAsset \<Rightarrow> string \<Rightarrow> update_state \<Rightarrow> update_state \<times> (update_error + unit)" where
  "downloadUpdate ev asset tempPath s =
     (let s1 = emitU (Fetch (browser_download_url asset)) s in
      case asset_fetch ev (browser_download_url asset) of
        FetchRejected \<Rightarrow> (s1, Inl FetchFailed)
      | ResponseNotOk \<Rightarrow> (s1, Inl UpdateDownloadError)
      | r \<Rightarrow>
          (let s2 = emitU (Fs (OpOpen tempPath)) s1 in
           if op_denied ev (OpOpen tempPath) then (s2, Inl DenoError)
           else
             (let old = (case paths s tempPath of None \<Rightarrow> [] | Some bs \<Rightarrow> bs);
                  put = (\<lambda>bs. s2\<lparr>paths := (paths s)(tempPath \<mapsto> overwrite old bs)\<rparr>);
                  piped = (case r of
                             Body bs \<Rightarrow> (put bs, Inr ())
                           | BodyInterrupted bs \<Rightarrow> (put bs, Inl FetchFailed)
                           | _ \<Rightarrow> (put [], Inr ()))
              in case piped of
                   (s3, Inl e) \<Rightarrow> (s3, Inl e)
                 | (s3, Inr _) \<Rightarrow>
                     if build_os ev \<noteq> ''windows''
                     then (if op_denied ev (OpChmod tempPath)
                           then (emitU (Fs (OpChmod tempPath)) s3, Inl DenoError)
                           else (emitU (Fs (OpChmod tempPath)) s3, Inr ()))
                     else (s3, Inr ()))))"

definition performUpdate :: "update_env \<Rightarrow> GitHubRelease \<Rightarrow> update_state \<Rightarrow> update_state \<times> (update_error + check_outcome)" where
  "performUpdate ev release s =
     (case getAssetForPlatform ev (assets release) of
        Inl e \<Rightarrow> (s, Inl e)
      | Inr asset \<Rightarrow>
          (let oldPath = execPath ev @ ''.old'';
               tempPath = execPath ev @ ''.new''
           in case downloadUpdate ev asset tempPath (emitU (LogDownloadingUpdate (asset_name asset)) s) of
                (s1, Inl e) \<Rightarrow> (s1, Inl e)
              | (s1, Inr _) \<Rightarrow>
                  (case fsRename ev (execPath ev) oldPath s1 of
                     (s2, Inl e) \<Rightarrow>
                       (case fsRemove ev tempPath s2 of
                          (s3, Inl e') \<Rightarrow> (s3, Inl e')
                        | (s3, Inr _) \<Rightarrow> (s3, Inl (RenameCurrentFailed e)))
                   | (s2, Inr _) \<Rightarrow>
                       (case fsRename ev tempPath (execPath ev) s2 of
                          (s3, Inl e) \<Rightarrow>
                            (case fsRename ev oldPath (execPath ev) s3 of
                               (s4, Inl e') \<Rightarrow> (s4, Inl e')
                             | (s4, Inr _) \<Rightarrow> (s4, Inl (ApplyUpdateFailed e)))
                        | (s3, Inr _) \<Rightarrow>
                            (let s4 = emitU (Fs (OpSpawn (execPath ev))) (emitU LogUpdateSuccess s3) in
                             if op_denied ev (OpSpawn (execPath ev)) then (s4, Inl DenoError)
                             else (s4, Inr (Exited (child_exit_code ev))))))))"

text \<open>The body of the \<open>try\<close> block of \<open>check\<close>.\<close>

definition check_try :: "update_env \<Rightarrow> update_state \<Rightarrow> update_state \<times> (update_error + check_outcome)" where
  "check_try ev s =
     (case getLatestRelease ev (emitU LogChecking s) of
        (s1, Inl e) \<Rightarrow> (s1, Inl e)
      | (s1, Inr latest) \<Rightarrow>
          (case parse APP_VERSION of
             Inl e \<Rightarrow> (s1, Inl e)
           | Inr currentVer \<Rightarrow>
               (case parse (tag_name latest) of
                  Inl e \<Rightarrow> (s1, Inl e)
                | Inr latestVer \<Rightarrow>
                    if greaterThan latestVer currentVer
                    then performUpdate ev latest (emitU (LogNewVersion (tag_name latest)) s1)
                    else (emitU LogUpToDate s1, Inr Returned))))"

definition isDev :: "update_env \<Rightarrow> bool" where
  "isDev ev = sublist ''deno'' (execPath ev)"

text \<open>\<open>check\<close>: clean up, skip in development mode, otherwise run the \<open>try\<close> block; its
  \<open>catch\<close> prints the error and returns.\<close>

definition check :: "update_env \<Rightarrow> update_state \<Rightarrow> update_state \<times> check_outcome" where
  "check ev s =
     (let s0 = cleanupOldVersions ev s in
      if isDev ev then (emitU LogDevMode s0, Returned)
      else (case check_try ev s0 of
              (s1, Inl e) \<Rightarrow> (emitU (LogUpdateError e) s1, Returned)
            | (s1, Inr r) \<Rightarrow> (s1, r)))"

section \<open>Predicates on states and traces\<close>

text \<open>The signature of a ZIP or JAR file, \<open>50 4B 03 04\<close>.\<close>

definition jarSignature :: "byte list" where
  "jarSignature = [0x50, 0x4B, 0x03, 0x04]"

text \<open>\<open>grows P s s'\<close>: the trace of \<open>s'\<close> is the trace of \<open>s\<close> followed by events that
  all satisfy \<open>P\<close>.\<close>

definition grows :: "(event \<Rightarrow> bool) \<Rightarrow> sync_state \<Rightarrow> sync_state \<Rightarrow> bool" where
  "grows P s s' = (\<exists>t. trace s' = trace s @ t \<and> list_all P t)"

text \<open>The events one manifest entry can add when it works on the listing \<open>cur\<close>, and the
  events the pruning block can add.\<close>

fun entryEventOf :: "string list \<Rightarrow> event \<Rightarrow> bool" where
  "entryEventOf cur (LogRemovingOld f) = (f \<in> set cur)"
| "entryEventOf cur (LogCouldNotRemove f e) = (f \<in> set cur)"
| "entryEventOf cur (IoRemove f) = (f \<in> set cur)"
| "entryEventOf cur (LogVerified n) = True"
| "entryEventOf cur (LogDownloading n) = True"
| "entryEventOf cur (LogInstalled f) = True"
| "entryEventOf cur (LogDownloaded n) = False"
| "entryEventOf cur (LogErrorProcessing n e) = True"
| "entryEventOf cur (IoDownload u f) = True"
| "entryEventOf cur LogPruneActive = False"
| "entryEventOf cur LogSafeMode = False"
| "entryEventOf cur (LogRemovingUnlisted f) = False"

fun pruneEventOf :: "string list \<Rightarrow> event \<Rightarrow> bool" where
  "pruneEventOf cur LogPruneActive = True"
| "pruneEventOf cur LogSafeMode = True"
| "pruneEventOf cur (LogRemovingUnlisted f) = (f \<in> set cur)"
| "pruneEventOf cur (IoRemove f) = (f \<in> set cur)"
| "pruneEventOf cur _ = False"

text \<open>The removal of an unlisted file by the pruning block, and the events of the loop
  over the manifest entries.\<close>

fun isOrphanRemoval :: "event \<Rightarrow> bool" where
  "isOrphanRemoval (LogRemovingUnlisted f) = True"
| "isOrphanRemoval _ = False"

fun isEntryEvent :: "event \<Rightarrow> bool" where
  "isEntryEvent (LogRemovingOld f) = True"
| "isEntryEvent (LogCouldNotRemove f e) = True"
| "isEntryEvent (LogVerified n) = True"
| "isEntryEvent (LogDownloading n) = True"
| "isEntryEvent (LogInstalled f) = True"
| "isEntryEvent (LogErrorProcessing n e) = True"
| "isEntryEvent (IoDownload u f) = True"
| "isEntryEvent _ = False"

text \<open>The order of a pass as the spec words it, read on a trace: once an unlisted file
  has been removed, no event of a manifest entry follows.\<close>

fun pruneAfterEntries :: "event list \<Rightarrow> bool" where
  "pruneAfterEntries [] = True"
| "pruneAfterEntries (e # es) =
     ((if isOrphanRemoval e then \<not> list_ex isEntryEvent es else True) \<and> pruneAfterEntries es)"

text \<open>\<open>keeps R s s'\<close>: every name outside \<open>R\<close> that is in the directory of \<open>s\<close> is
  still in the directory of \<open>s'\<close>.\<close>

definition keeps :: "string set \<Rightarrow> sync_state \<Rightarrow> sync_state \<Rightarrow> bool" where
  "keeps R s s' = (\<forall>f. f \<notin> R \<longrightarrow> map_of (dir s) f \<noteq> None \<longrightarrow> map_of (dir s') f \<noteq> None)"

text \<open>\<open>onlyFilesAdded s s'\<close>: an entry of the directory of \<open>s'\<close> is the entry \<open>s\<close> had
  under that name, or a regular file.\<close>

definition onlyFilesAdded :: "sync_state \<Rightarrow> sync_state \<Rightarrow> bool" where
  "onlyFilesAdded s s' = (\<forall>f e. map_of (dir s') f = Some e \<longrightarrow> map_of (dir s) f = Some e \<or> isFile e)"

text \<open>\<open>addsOnly T s s'\<close>: an entry of the directory of \<open>s'\<close> is an entry of the directory
  of \<open>s\<close>, or its name is in \<open>T\<close>.\<close>

definition addsOnly :: "string set \<Rightarrow> sync_state \<Rightarrow> sync_state \<Rightarrow> bool" where
  "addsOnly T s s' = (\<forall>p \<in> set (dir s'). p \<in> set (dir s) \<or> fst p \<in> T)"







section \<open>Example inputs\<close>

definition exampleJar :: "byte list" where
  "exampleJar = [0x50, 0x4B, 0x03, 0x04, 0x14]"

definition stateWithJar :: sync_state where
  "stateWithJar = \<lparr>dir = [(''sodium.jar'', RegularFile exampleJar)], trace = []\<rparr>"

definition exampleConfig :: ModpackConfig where
  "exampleConfig = \<lparr>modLoader = ''fabric'', gameVersion = ''1.20.1'', prune = None, mods = []\<rparr>"

definition versionLabelled :: "string \<Rightarrow> Version" where
  "versionLabelled l =
     \<lparr>game_versions = [''1.20.1''], loaders = [''fabric''], version_number = l,
      files = [\<lparr>url = ''https://cdn.example/jei.jar'', filename = ''jei.jar''\<rparr>]\<rparr>"

definition pinnedMod :: "string \<Rightarrow> ModConfig" where
  "pinnedMod p = \<lparr>name = ''JEI'', version = Some p, source = Some Modrinth,
                  projectId = Some ''u6dRKJwZ'', downloadUrl = None, fileName = None\<rparr>"

definition currentBinary :: "byte list" where
  "currentBinary = [0x7F, 0x45, 0x4C, 0x46, 0x01]"

definition newBinary :: "byte list" where
  "newBinary = [0x7F, 0x45, 0x4C, 0x46, 0x02]"

definition releaseTagged :: "string \<Rightarrow> GitHubRelease" where
  "releaseTagged t =
     \<lparr>tag_name = t,
      assets = [\<lparr>asset_name = ''mod-manager-linux-x64'',
                 browser_download_url = ''https://github.example/mod-manager-linux-x64'',
                 asset_size = 5\<rparr>]\<rparr>"

definition updateEnv :: "string \<Rightarrow> (fs_op \<Rightarrow> bool) \<Rightarrow> update_env" where
  "updateEnv t denied =
     \<lparr>execPath = ''/opt/mm'', build_os = ''linux'', build_arch = ''x86_64'',
      release_feed = ReleaseJson (releaseTagged t),
      asset_fetch = (\<lambda>u. Body newBinary),
      op_denied = denied,
      child_exit_code = 0\<rparr>"

definition installedState :: update_state where
  "installedState = \<lparr>paths = [''/opt/mm'' \<mapsto> currentBinary], events = []\<rparr>"

text \<open>The platform refuses to move anything onto the original path.\<close>

fun swapRefused :: "fs_op \<Rightarrow> bool" where
  "swapRefused (OpRename a b) = (b = ''/opt/mm'')"
| "swapRefused _ = False"

fun chmodRefused :: "fs_op \<Rightarrow> bool" where
  "chmodRefused (OpChmod p) = True"
| "chmodRefused _ = False"

definition customMod :: ModConfig where
  "customMod = \<lparr>name = ''Custom Mod'', version = Some ''1.0.0'', source = Some Url,
                projectId = None, downloadUrl = Some ''https://example.com/mod.jar'',
                fileName = Some ''custom-mod-1.0.0.jar''\<rparr>"

definition syncEnv :: "(string \<Rightarrow> fetch_result) \<Rightarrow> env" where
  "syncEnv fetch =
     \<lparr>search_hits = (\<lambda>q l g. Inr []),
      project_versions = (\<lambda>pid. if pid = ''u6dRKJwZ'' then Inr [versionLabelled ''v1.5.0'']
                                else Inl NetworkError),
      fetch_url = fetch,
      remove_denied = (\<lambda>n. False),
      open_denied = (\<lambda>n. False),
      write_limit = (\<lambda>n. None),
      readDir_fails = False\<rparr>"

definition manifestOf :: "bool option \<Rightarrow> ModConfig list \<Rightarrow> ModpackConfig" where
  "manifestOf p ms = \<lparr>modLoader = ''fabric'', gameVersion = ''1.20.1'', prune = p, mods = ms\<rparr>"

definition leftoverState :: sync_state where
  "leftoverState = \<lparr>dir = [(''leftover.jar'', RegularFile exampleJar)], trace = []\<rparr>"

definition notesState :: sync_state where
  "notesState = \<lparr>dir = [(''notes.txt'', RegularFile [0x68, 0x69]),
                         (''leftover.jar'', RegularFile exampleJar),
                         (''backup.jar.bak'', RegularFile exampleJar)], trace = []\<rparr>"

definition unknownMod :: ModConfig where
  "unknownMod = \<lparr>name = ''Ghost'', version = None, source = Some Modrinth,
                 projectId = Some ''nope'', downloadUrl = None, fileName = None\<rparr>"

definition emptyState :: sync_state where
  "emptyState = \<lparr>dir = [], trace = []\<rparr>"

definition htmlPage :: "byte list" where
  "htmlPage = [0x3C, 0x68, 0x74, 0x6D, 0x6C, 0x3E]"




section \<open>Properties\<close>

subsection \<open>Artifact validator\<close>

lemma readBuffer4_signature:
  "bs \<noteq> [] \<Longrightarrow>
   (readBuffer4 bs ! 0 = 0x50 \<and> readBuffer4 bs ! 1 = 0x4B \<and> readBuffer4 bs ! 2 = 0x03 \<and> readBuffer4 bs ! 3 = 0x04)
   = (take 4 bs = jarSignature)"
  apply (cases bs; simp add: readBuffer4_def jarSignature_def)
  subgoal for a as
    apply (cases as; simp)
    subgoal for b bs'
      apply (cases bs'; simp)
      subgoal for c cs
        by (cases cs; simp)
      done
    done
  done

text \<open>
  C9. For a regular file at the given path, \<open>validateJarFile\<close> fails exactly when the
  file is empty or its first four bytes are not \<open>50 4B 03 04\<close>, and it hands back the
  state it was given: the directory and the trace are unchanged, so nothing is deleted,
  truncated or written.
\<close>

theorem validateJarFile_contract:
  assumes "map_of (dir s) filePath = Some (RegularFile bs)"
  shows "((\<exists>e. snd (validateJarFile filePath s) = Inl e) \<longleftrightarrow> (bs = [] \<or> take 4 bs \<noteq> jarSignature))
         \<and> fst (validateJarFile filePath s) = s"
proof (cases "bs = []")
  case True
  with assms show ?thesis by (simp add: validateJarFile_def)
next
  case False
  from readBuffer4_signature [OF False] assms False show ?thesis
    by (auto simp: validateJarFile_def Let_def)
qed

theorem validateJarFile_contract_witness:
  "map_of (dir stateWithJar) ''sodium.jar'' = Some (RegularFile exampleJar)
   \<and> snd (validateJarFile ''sodium.jar'' stateWithJar) = Inr ()
   \<and> fst (validateJarFile ''sodium.jar'' stateWithJar) = stateWithJar"
proof -
  have h: "map_of (dir stateWithJar) ''sodium.jar'' = Some (RegularFile exampleJar)"
    by (simp add: stateWithJar_def)
  have "take 4 exampleJar = jarSignature" "exampleJar \<noteq> []"
    by (simp_all add: exampleJar_def jarSignature_def)
  with validateJarFile_contract [OF h] h show ?thesis
    by (cases "snd (validateJarFile ''sodium.jar'' stateWithJar)") auto
qed

subsection \<open>Version selection\<close>

lemma stripLeadingV_eq:
  "v \<noteq> pin \<Longrightarrow> (v = CHR ''v'' # pin \<or> stripLeadingV v = pin) = (v = CHR ''v'' # pin)"
  by (cases v) auto

text \<open>
  C6 (as amended). For an entry with a non-empty pinned version, the resolver returns the
  first compatible version whose label equals the pin; if there is none, the first
  compatible version whose label is the pin with a \<open>v\<close> in front; and it fails only if
  there is none of either. The retry tolerates a leading \<open>v\<close> on the registry side only.
\<close>

theorem selectVersion_pinned:
  assumes "version md = Some pin" and "pin \<noteq> []"
  shows "selectVersion cfg md versions =
           (case List.find (\<lambda>v. compatible cfg v \<and> version_number v = pin) versions of
              Some v \<Rightarrow> Inr v
            | None \<Rightarrow>
                (case List.find (\<lambda>v. compatible cfg v \<and> version_number v = CHR ''v'' # pin) versions of
                   Some v \<Rightarrow> Inr v
                 | None \<Rightarrow> Inl SpecificVersionNotFound))"
proof (cases "List.find (\<lambda>v. compatible cfg v \<and> version_number v = pin) versions")
  case (Some v)
  with assms show ?thesis by (simp add: selectVersion_def)
next
  case None
  then have no_exact: "\<And>v. v \<in> set versions \<Longrightarrow> compatible cfg v \<Longrightarrow> version_number v \<noteq> pin"
    by (auto simp: find_None_iff)
  have "List.find (\<lambda>v. compatible cfg v \<and>
            (version_number v = CHR ''v'' # pin \<or> stripLeadingV (version_number v) = pin)) versions
        = List.find (\<lambda>v. compatible cfg v \<and> version_number v = CHR ''v'' # pin) versions"
  proof (rule find_cong)
    fix v assume "v \<in> set versions"
    show "(compatible cfg v \<and>
            (version_number v = CHR ''v'' # pin \<or> stripLeadingV (version_number v) = pin))
          = (compatible cfg v \<and> version_number v = CHR ''v'' # pin)"
    proof (cases "compatible cfg v")
      case True
      with \<open>v \<in> set versions\<close> have "version_number v \<noteq> pin" by (rule no_exact)
      from stripLeadingV_eq [OF this] True show ?thesis by simp
    qed simp
  qed simp
  with None assms show ?thesis by (simp add: selectVersion_def)
qed

theorem selectVersion_pinned_witness:
  "version (pinnedMod ''1.5.0'') = Some ''1.5.0'' \<and> ''1.5.0'' \<noteq> []
   \<and> selectVersion exampleConfig (pinnedMod ''1.5.0'') [versionLabelled ''1.4.0'', versionLabelled ''v1.5.0'']
       = Inr (versionLabelled ''v1.5.0'')"
proof -
  have h: "version (pinnedMod ''1.5.0'') = Some ''1.5.0''" by (simp add: pinnedMod_def)
  have n: "''1.5.0'' \<noteq> []" by simp
  show ?thesis
    using selectVersion_pinned [OF h n, of exampleConfig "[versionLabelled ''1.4.0'', versionLabelled ''v1.5.0'']"] h
    by (simp add: compatible_def exampleConfig_def versionLabelled_def)
qed

text \<open>A pin of \<open>v1.5.0\<close> does not resolve against a compatible version labelled
  \<open>1.5.0\<close>: the retry compares the label with \<open>v\<close> + pin and the stripped label with
  the pin, and both tests fail.\<close>

theorem selectVersion_pin_side_v_counterexample:
  "selectVersion exampleConfig (pinnedMod ''v1.5.0'') [versionLabelled ''1.5.0''] = Inl SpecificVersionNotFound"
  by (simp add: selectVersion_def compatible_def exampleConfig_def versionLabelled_def pinnedMod_def)

subsection \<open>Self-update manager\<close>

lemma parse_APP_VERSION:
  "parse APP_VERSION = Inr \<lparr>major = 1, minor = 0, patch = 1, prerelease = [], build = []\<rparr>"
  by code_simp

lemma parse_1_0_0:
  "parse ''1.0.0'' = Inr \<lparr>major = 1, minor = 0, patch = 0, prerelease = [], build = []\<rparr>"
  by code_simp

lemma parse_1_1_0:
  "parse ''1.1.0'' = Inr \<lparr>major = 1, minor = 1, patch = 0, prerelease = [], build = []\<rparr>"
  by code_simp

lemma not_dev_updateEnv: "\<not> isDev (updateEnv t d)"
  unfolding isDev_def updateEnv_def by code_simp

text \<open>
  C8. When the release feed answers with a tag that parses as a semantic version not
  strictly greater than the current one, \<open>check\<close> returns after printing that the
  version is up to date. Its whole activity is the best-effort removal of the backup, the
  request to the release feed and two lines of output: no asset is fetched, nothing is
  renamed, nothing is spawned, and every path but the backup keeps its content.
\<close>

theorem check_not_newer:
  assumes "\<not> isDev ev"
      and "release_feed ev = ReleaseJson latest"
      and "parse (tag_name latest) = Inr latestVer"
      and "parse APP_VERSION = Inr currentVer"
      and "\<not> greaterThan latestVer currentVer"
  shows "snd (check ev s) = Returned
         \<and> events (fst (check ev s))
             = events s @ [Fs (OpRemove (execPath ev @ ''.old'')), LogChecking, Fetch releasesUrl, LogUpToDate]
         \<and> (\<forall>p. p \<noteq> execPath ev @ ''.old'' \<longrightarrow> paths (fst (check ev s)) p = paths s p)"
  using assms
  by (simp add: check_def check_try_def getLatestRelease_def cleanupOldVersions_def fsRemove_def
        emitU_def Let_def)

theorem check_not_newer_witness:
  "snd (check (updateEnv ''1.0.0'' (\<lambda>op. False)) installedState) = Returned
   \<and> events (fst (check (updateEnv ''1.0.0'' (\<lambda>op. False)) installedState))
       = [Fs (OpRemove ''/opt/mm.old''), LogChecking, Fetch releasesUrl, LogUpToDate]
   \<and> paths (fst (check (updateEnv ''1.0.0'' (\<lambda>op. False)) installedState)) ''/opt/mm'' = Some currentBinary
   \<and> paths (fst (check (updateEnv ''1.0.0'' (\<lambda>op. False)) installedState)) ''/opt/mm.new'' = None"
proof -
  let ?ev = "updateEnv ''1.0.0'' (\<lambda>op. False)"
  have a: "release_feed ?ev = ReleaseJson (releaseTagged ''1.0.0'')" by (simp add: updateEnv_def)
  have b: "parse (tag_name (releaseTagged ''1.0.0''))
             = Inr \<lparr>major = 1, minor = 0, patch = 0, prerelease = [], build = []\<rparr>"
    by (simp add: releaseTagged_def parse_1_0_0)
  have c: "\<not> greaterThan \<lparr>major = 1, minor = 0, patch = 0, prerelease = [], build = []\<rparr>
                          \<lparr>major = 1, minor = 0, patch = 1, prerelease = [], build = []\<rparr>"
    by (simp add: greaterThan_def)
  from check_not_newer [OF not_dev_updateEnv a b parse_APP_VERSION c, of installedState]
  show ?thesis by (simp add: installedState_def updateEnv_def)
qed


lemma paths_distinct:
  "p @ ''.old'' \<noteq> p" "p @ ''.new'' \<noteq> p" "p @ ''.old'' \<noteq> p @ ''.new''"
  "p \<noteq> p @ ''.old''" "p \<noteq> p @ ''.new''" "p @ ''.new'' \<noteq> p @ ''.old''"
  by simp_all

text \<open>
  C1 (as amended). Outside development mode, every error of the update sequence is
  caught by the \<open>catch\<close> of \<open>check\<close>, printed as the same warning, and \<open>check\<close>
  returns, so the program goes on. This includes the failed restoration: when the rename
  of the current binary succeeds and both the rename of the new binary and the
  restoring rename fail, the error printed is the restoring rename's own, nothing is at
  the original path and the previous binary is at the backup path.
\<close>

theorem update_errors_all_degrade:
  assumes "\<not> isDev ev"
  shows "(\<forall>s1 e. check_try ev (cleanupOldVersions ev s) = (s1, Inl e)
            \<longrightarrow> check ev s = (emitU (LogUpdateError e) s1, Returned))
     \<and> (\<forall>latest latestVer currentVer asset bs current.
          release_feed ev = ReleaseJson latest
          \<and> parse (tag_name latest) = Inr latestVer \<and> parse APP_VERSION = Inr currentVer
          \<and> greaterThan latestVer currentVer
          \<and> getAssetForPlatform ev (assets latest) = Inr asset
          \<and> asset_fetch ev (browser_download_url asset) = Body bs
          \<and> \<not> op_denied ev (OpOpen (execPath ev @ ''.new''))
          \<and> \<not> op_denied ev (OpChmod (execPath ev @ ''.new''))
          \<and> paths s (execPath ev) = Some current
          \<and> \<not> op_denied ev (OpRename (execPath ev) (execPath ev @ ''.old''))
          \<and> op_denied ev (OpRename (execPath ev @ ''.new'') (execPath ev))
          \<and> op_denied ev (OpRename (execPath ev @ ''.old'') (execPath ev))
          \<longrightarrow> snd (check ev s) = Returned
              \<and> last (events (fst (check ev s))) = LogUpdateError DenoError
              \<and> paths (fst (check ev s)) (execPath ev) = None
              \<and> paths (fst (check ev s)) (execPath ev @ ''.old'') = Some current)"
proof (intro conjI allI impI)
  fix s1 e
  assume "check_try ev (cleanupOldVersions ev s) = (s1, Inl e)"
  with assms show "check ev s = (emitU (LogUpdateError e) s1, Returned)"
    by (simp add: check_def)
next
  fix latest latestVer currentVer asset bs current
  assume h: "release_feed ev = ReleaseJson latest
          \<and> parse (tag_name latest) = Inr latestVer \<and> parse APP_VERSION = Inr currentVer
          \<and> greaterThan latestVer currentVer
          \<and> getAssetForPlatform ev (assets latest) = Inr asset
          \<and> asset_fetch ev (browser_download_url asset) = Body bs
          \<and> \<not> op_denied ev (OpOpen (execPath ev @ ''.new''))
          \<and> \<not> op_denied ev (OpChmod (execPath ev @ ''.new''))
          \<and> paths s (execPath ev) = Some current
          \<and> \<not> op_denied ev (OpRename (execPath ev) (execPath ev @ ''.old''))
          \<and> op_denied ev (OpRename (execPath ev @ ''.new'') (execPath ev))
          \<and> op_denied ev (OpRename (execPath ev @ ''.old'') (execPath ev))"
  have r: "check ev s = (fst (check ev s), snd (check ev s))" by simp
  from h assms have
    "snd (check ev s) = Returned
     \<and> last (events (fst (check ev s))) = LogUpdateError DenoError
     \<and> paths (fst (check ev s)) (execPath ev) = None
     \<and> paths (fst (check ev s)) (execPath ev @ ''.old'') = Some current"
    by (simp add: check_def check_try_def getLatestRelease_def performUpdate_def downloadUpdate_def
          cleanupOldVersions_def fsRemove_def fsRename_def emitU_def Let_def)
  then show "snd (check ev s) = Returned"
    and "last (events (fst (check ev s))) = LogUpdateError DenoError"
    and "paths (fst (check ev s)) (execPath ev) = None"
    and "paths (fst (check ev s)) (execPath ev @ ''.old'') = Some current"
    by simp_all
qed



lemma getAsset_example:
  "getAssetForPlatform (updateEnv t d) (assets (releaseTagged t))
     = Inr \<lparr>asset_name = ''mod-manager-linux-x64'',
            browser_download_url = ''https://github.example/mod-manager-linux-x64'',
            asset_size = 5\<rparr>"
  by (simp add: getAssetForPlatform_def updateEnv_def releaseTagged_def)

theorem update_errors_all_degrade_witness:
  "snd (check (updateEnv ''1.1.0'' swapRefused) installedState) = Returned
   \<and> last (events (fst (check (updateEnv ''1.1.0'' swapRefused) installedState))) = LogUpdateError DenoError
   \<and> paths (fst (check (updateEnv ''1.1.0'' swapRefused) installedState)) ''/opt/mm'' = None
   \<and> paths (fst (check (updateEnv ''1.1.0'' swapRefused) installedState)) ''/opt/mm.old'' = Some currentBinary"
proof -
  let ?ev = "updateEnv ''1.1.0'' swapRefused"
  have gt: "greaterThan \<lparr>major = 1, minor = 1, patch = 0, prerelease = [], build = []\<rparr>
                        \<lparr>major = 1, minor = 0, patch = 1, prerelease = [], build = []\<rparr>"
    by (simp add: greaterThan_def)
  have hyps: "release_feed ?ev = ReleaseJson (releaseTagged ''1.1.0'')
          \<and> parse (tag_name (releaseTagged ''1.1.0''))
               = Inr \<lparr>major = 1, minor = 1, patch = 0, prerelease = [], build = []\<rparr>
          \<and> parse APP_VERSION = Inr \<lparr>major = 1, minor = 0, patch = 1, prerelease = [], build = []\<rparr>
          \<and> greaterThan \<lparr>major = 1, minor = 1, patch = 0, prerelease = [], build = []\<rparr>
                         \<lparr>major = 1, minor = 0, patch = 1, prerelease = [], build = []\<rparr>
          \<and> getAssetForPlatform ?ev (assets (releaseTagged ''1.1.0''))
               = Inr \<lparr>asset_name = ''mod-manager-linux-x64'',
                      browser_download_url = ''https://github.example/mod-manager-linux-x64'',
                      asset_size = 5\<rparr>
          \<and> asset_fetch ?ev (browser_download_url \<lparr>asset_name = ''mod-manager-linux-x64'',
                      browser_download_url = ''https://github.example/mod-manager-linux-x64'',
                      asset_size = 5\<rparr>) = Body newBinary
          \<and> \<not> op_denied ?ev (OpOpen (execPath ?ev @ ''.new''))
          \<and> \<not> op_denied ?ev (OpChmod (execPath ?ev @ ''.new''))
          \<and> paths installedState (execPath ?ev) = Some currentBinary
          \<and> \<not> op_denied ?ev (OpRename (execPath ?ev) (execPath ?ev @ ''.old''))
          \<and> op_denied ?ev (OpRename (execPath ?ev @ ''.new'') (execPath ?ev))
          \<and> op_denied ?ev (OpRename (execPath ?ev @ ''.old'') (execPath ?ev))"
    using gt getAsset_example [of "''1.1.0''" swapRefused] parse_APP_VERSION
    by (simp add: updateEnv_def installedState_def releaseTagged_def parse_1_1_0)
  from update_errors_all_degrade [OF not_dev_updateEnv, of "''1.1.0''" swapRefused installedState]
  have "snd (check ?ev installedState) = Returned
              \<and> last (events (fst (check ?ev installedState))) = LogUpdateError DenoError
              \<and> paths (fst (check ?ev installedState)) (execPath ?ev) = None
              \<and> paths (fst (check ?ev installedState)) (execPath ?ev @ ''.old'') = Some currentBinary"
    using hyps by blast
  then show ?thesis by (simp add: updateEnv_def)
qed


lemmas update_unfold =
  check_def check_try_def getLatestRelease_def performUpdate_def downloadUpdate_def
  getAssetForPlatform_def cleanupOldVersions_def fsRemove_def fsRename_def emitU_def Let_def
  overwrite_def greaterThan_def updateEnv_def installedState_def releaseTagged_def

text \<open>
  The failed restoration is not a state of its own: \<open>check\<close> returns as it does when
  \<open>chmod\<close> on the temporary file fails, with the same line printed, although the
  original path is now empty.
\<close>

theorem rollback_failure_not_distinct_counterexample:
  "snd (check (updateEnv ''1.1.0'' swapRefused) installedState) = Returned
   \<and> events (fst (check (updateEnv ''1.1.0'' swapRefused) installedState))
       = [Fs (OpRemove ''/opt/mm.old''), LogChecking, Fetch releasesUrl,
          LogNewVersion ''1.1.0'', LogDownloadingUpdate ''mod-manager-linux-x64'',
          Fetch ''https://github.example/mod-manager-linux-x64'',
          Fs (OpOpen ''/opt/mm.new''), Fs (OpChmod ''/opt/mm.new''),
          Fs (OpRename ''/opt/mm'' ''/opt/mm.old''),
          Fs (OpRename ''/opt/mm.new'' ''/opt/mm''),
          Fs (OpRename ''/opt/mm.old'' ''/opt/mm''), LogUpdateError DenoError]
   \<and> paths (fst (check (updateEnv ''1.1.0'' swapRefused) installedState)) ''/opt/mm'' = None
   \<and> paths (fst (check (updateEnv ''1.1.0'' swapRefused) installedState)) ''/opt/mm.old'' = Some currentBinary
   \<and> snd (check (updateEnv ''1.1.0'' chmodRefused) installedState) = Returned
   \<and> last (events (fst (check (updateEnv ''1.1.0'' chmodRefused) installedState))) = LogUpdateError DenoError
   \<and> paths (fst (check (updateEnv ''1.1.0'' chmodRefused) installedState)) ''/opt/mm'' = Some currentBinary"
  using not_dev_updateEnv [of "''1.1.0''" swapRefused] not_dev_updateEnv [of "''1.1.0''" chmodRefused]
  by (simp add: update_unfold parse_APP_VERSION parse_1_1_0)

subsection \<open>Traces of a sync pass\<close>

lemma grows_refl [simp]: "grows P s s"
  by (simp add: grows_def)

lemma grows_trans: "grows P s s1 \<Longrightarrow> grows P s1 s2 \<Longrightarrow> grows P s s2"
  by (auto simp: grows_def)


lemma grows_emit: "P e \<Longrightarrow> grows P s (emit e s)"
  by (simp add: grows_def emit_def)

lemma grows_emit_left: "P e \<Longrightarrow> grows P (emit e s) s' \<Longrightarrow> grows P s s'"
  by (auto simp: grows_def emit_def)

lemma grows_emit_right: "grows P s s' \<Longrightarrow> P e \<Longrightarrow> grows P s (emit e s')"
  by (auto simp: grows_def emit_def)

lemma grows_dir [simp]: "grows P s (s'\<lparr>dir := d\<rparr>) = grows P s s'"
  by (simp add: grows_def)

lemma dir_emit [simp]: "dir (emit e s) = dir s"
  by (simp add: emit_def)

lemma trace_emit [simp]: "trace (emit e s) = trace s @ [e]"
  by (simp add: emit_def)

lemma validateJarFile_state [simp]: "fst (validateJarFile p s) = s"
  by (simp add: validateJarFile_def Let_def split: option.splits dir_entry.splits)

lemma denoRemove_grows: "P (IoRemove n) \<Longrightarrow> grows P s (fst (denoRemove ev n s))"
  by (simp add: denoRemove_def Let_def grows_emit)

lemma downloadFile_grows: "P (IoDownload u p) \<Longrightarrow> grows P s (fst (downloadFile ev u p s))"
  by (auto simp: downloadFile_def Let_def intro: grows_emit
           split: fetch_result.splits option.splits dir_entry.splits)

lemma removeDuplicates_grows:
  "(\<And>f e. f \<in> set fs \<Longrightarrow> P (LogRemovingOld f) \<and> P (IoRemove f) \<and> P (LogCouldNotRemove f e))
   \<Longrightarrow> grows P s (removeDuplicates ev fs s)"
proof (induction fs arbitrary: s)
  case Nil
  show ?case by simp
next
  case (Cons f fs)
  let ?r = "denoRemove ev f (emit (LogRemovingOld f) s)"
  have a: "grows P s (fst ?r)"
    using Cons.prems [of f]
    by (auto intro!: grows_emit_left [of P "LogRemovingOld f"] denoRemove_grows)
  have tail: "\<And>s'. grows P s' (removeDuplicates ev fs s')"
    using Cons.prems by (auto intro: Cons.IH)
  show ?case
  proof (cases "snd ?r")
    case (Inl e)
    have "grows P (fst ?r) (emit (LogCouldNotRemove f e) (fst ?r))"
      using Cons.prems [of f] by (auto intro: grows_emit)
    with a tail [of "emit (LogCouldNotRemove f e) (fst ?r)"] Inl show ?thesis
      by (cases ?r) (auto intro: grows_trans)
  next
    case (Inr u)
    with a tail [of "fst ?r"] show ?thesis
      by (cases ?r) (auto intro: grows_trans)
  qed
qed

lemma duplicatesOf_subset: "set (duplicatesOf md fn cur) \<subseteq> set cur"
  by (auto simp: duplicatesOf_def)

lemma processModDownload_try_grows:
  "grows (entryEventOf cur) s (fst (processModDownload_try ev cfg md cur s))"
proof (cases "resolveTarget ev cfg md")
  case (Inl e)
  then show ?thesis by (simp add: processModDownload_try_def)
next
  case (Inr r)
  obtain fn u v where r: "r = (fn, u, v)" by (cases r) auto
  let ?s1 = "removeDuplicates ev (duplicatesOf md fn cur) s"
  have s1: "grows (entryEventOf cur) s ?s1"
    using duplicatesOf_subset [of md fn cur] by (intro removeDuplicates_grows) auto
  let ?d = "downloadFile ev u fn (emit (LogDownloading (name md)) ?s1)"
  have d: "grows (entryEventOf cur) ?s1 (fst ?d)"
    by (rule grows_emit_left [of _ "LogDownloading (name md)"]) (simp_all add: downloadFile_grows)
  have d': "grows (entryEventOf cur) s (fst ?d)"
    using s1 d by (rule grows_trans)
  have v: "grows (entryEventOf cur) s (emit (LogVerified (name md)) ?s1)"
    using s1 by (rule grows_trans) (simp add: grows_emit)
  have i: "grows (entryEventOf cur) s (emit (LogInstalled fn) (fst ?d))"
    using d' by (rule grows_trans) (simp add: grows_emit)
  show ?thesis
    using Inr r d' v i
    by (simp add: processModDownload_try_def Let_def case_prod_beta split: sum.splits)
qed

lemma processModDownload_grows:
  "grows (entryEventOf cur) s (fst (processModDownload ev cfg md cur s))"
  using processModDownload_try_grows [of cur s ev cfg md]
  by (auto simp: processModDownload_def case_prod_beta split: sum.splits
           intro: grows_emit_right)

lemma processModDownload_never_throws: "snd (processModDownload ev cfg md cur s) = Inr ()"
  by (simp add: processModDownload_def case_prod_beta split: sum.splits)

lemma processLoop_Cons:
  "processLoop ev cfg cur (md # rest) s = processLoop ev cfg cur rest (fst (processModDownload ev cfg md cur s))"
  using processModDownload_never_throws [of ev cfg md cur s]
  by (cases "processModDownload ev cfg md cur s") auto

lemma processLoop_append:
  "processLoop ev cfg cur (pre @ post) s = processLoop ev cfg cur post (fst (processLoop ev cfg cur pre s))"
  by (induction pre arbitrary: s) (simp_all add: processLoop_Cons del: processLoop.simps(2))

lemma processLoop_never_throws: "snd (processLoop ev cfg cur ms s) = Inr ()"
  by (induction ms arbitrary: s) (simp_all add: processLoop_Cons del: processLoop.simps(2))

lemma processLoop_grows: "grows (entryEventOf cur) s (fst (processLoop ev cfg cur ms s))"
proof (induction ms arbitrary: s)
  case Nil
  show ?case by simp
next
  case (Cons md ms)
  from processModDownload_grows Cons.IH show ?case
    unfolding processLoop_Cons by (rule grows_trans)
qed


lemma pruneLoop_grows:
  "set cur \<subseteq> set cur' \<Longrightarrow> grows (pruneEventOf cur') s (fst (pruneLoop ev names cur s))"
proof (induction cur arbitrary: s)
  case Nil
  show ?case by simp
next
  case (Cons f fs)
  let ?r = "denoRemove ev f (emit (LogRemovingUnlisted f) s)"
  have a: "grows (pruneEventOf cur') s (fst ?r)"
    using Cons.prems
    by (auto intro!: grows_emit_left [of _ "LogRemovingUnlisted f"] denoRemove_grows)
  have tail: "\<And>s'. grows (pruneEventOf cur') s' (fst (pruneLoop ev names fs s'))"
    using Cons.prems by (auto intro: Cons.IH)
  from a tail [of s] grows_trans [OF a tail [of "fst ?r"]] show ?case
    by (simp add: case_prod_beta split: sum.splits)
qed

lemma pruneBlock_grows:
  "grows (pruneEventOf cur) s (fst (pruneBlock ev cfg cur s))"
proof (cases "prune cfg \<noteq> Some False")
  case True
  have "grows (pruneEventOf cur) (emit LogPruneActive s)
          (fst (pruneLoop ev (map (\<lambda>md. configModName (name md)) (mods cfg)) cur (emit LogPruneActive s)))"
    by (rule pruneLoop_grows) simp
  with True show ?thesis
    by (auto simp: pruneBlock_def intro: grows_emit_left [of _ LogPruneActive])
next
  case False
  then show ?thesis by (simp add: pruneBlock_def grows_emit)
qed

lemma syncMods_cases:
  obtains (aborted) e where "snd (pruneBlock ev cfg (getCurrentMods ev s) s) = Inl e"
      and "syncMods ev cfg s = (fst (pruneBlock ev cfg (getCurrentMods ev s) s), Inl e)"
  | (completed) "snd (pruneBlock ev cfg (getCurrentMods ev s) s) = Inr ()"
      and "syncMods ev cfg s =
             (fst (processLoop ev cfg (getCurrentMods ev s) (mods cfg)
                     (fst (pruneBlock ev cfg (getCurrentMods ev s) s))), Inr ())"
proof (cases "snd (pruneBlock ev cfg (getCurrentMods ev s) s)")
  case (Inl e)
  then have "syncMods ev cfg s = (fst (pruneBlock ev cfg (getCurrentMods ev s) s), Inl e)"
    by (simp add: syncMods_def Let_def case_prod_beta)
  with Inl show ?thesis by (rule aborted)
next
  case (Inr u)
  then have "syncMods ev cfg s =
             (fst (processLoop ev cfg (getCurrentMods ev s) (mods cfg)
                     (fst (pruneBlock ev cfg (getCurrentMods ev s) s))), Inr ())"
    using processLoop_never_throws [of ev cfg "getCurrentMods ev s" "mods cfg"
             "fst (pruneBlock ev cfg (getCurrentMods ev s) s)"]
    by (simp add: syncMods_def Let_def case_prod_beta prod_eq_iff)
  with Inr show ?thesis by (auto intro: completed)
qed

lemma syncMods_trace:
  "\<exists>tp te. trace (fst (syncMods ev cfg s)) = trace s @ tp @ te
      \<and> list_all (pruneEventOf (getCurrentMods ev s)) tp
      \<and> list_all (entryEventOf (getCurrentMods ev s)) te"
proof -
  let ?cur = "getCurrentMods ev s"
  let ?p = "fst (pruneBlock ev cfg ?cur s)"
  obtain tp where tp: "trace ?p = trace s @ tp" "list_all (pruneEventOf ?cur) tp"
    using pruneBlock_grows [of ?cur s ev cfg] by (auto simp: grows_def)
  show ?thesis
  proof (cases rule: syncMods_cases [of ev cfg s])
    case (aborted e)
    with tp have "trace (fst (syncMods ev cfg s)) = trace s @ tp @ []" by simp
    with tp show ?thesis by (intro exI [of _ tp] exI [of _ "[]"]) simp
  next
    case completed
    obtain te where te: "trace (fst (processLoop ev cfg ?cur (mods cfg) ?p)) = trace ?p @ te"
        "list_all (entryEventOf ?cur) te"
      using processLoop_grows [of ?cur ?p ev cfg "mods cfg"] by (auto simp: grows_def)
    with tp completed show ?thesis by (intro exI [of _ tp] exI [of _ te]) simp
  qed
qed

subsection \<open>Deletions and the order of a pass\<close>

lemma keeps_refl [simp]: "keeps R s s"
  by (simp add: keeps_def)

lemma keeps_trans: "keeps R s s1 \<Longrightarrow> keeps R s1 s2 \<Longrightarrow> keeps R s s2"
  by (auto simp: keeps_def)

lemma keeps_emit_left [simp]: "keeps R (emit e s) s' = keeps R s s'"
  by (simp add: keeps_def)

lemma keeps_emit_right [simp]: "keeps R s (emit e s') = keeps R s s'"
  by (simp add: keeps_def)

lemma denoRemove_keeps: "n \<in> R \<Longrightarrow> keeps R s (fst (denoRemove ev n s))"
  by (auto simp: denoRemove_def Let_def keeps_def emit_def delete_conv')

lemma downloadFile_keeps: "keeps R s (fst (downloadFile ev u p s))"
  by (auto simp: downloadFile_def Let_def keeps_def emit_def update_conv'
           split: fetch_result.splits option.splits dir_entry.splits)

lemma removeDuplicates_keeps: "set fs \<subseteq> R \<Longrightarrow> keeps R s (removeDuplicates ev fs s)"
proof (induction fs arbitrary: s)
  case Nil
  show ?case by simp
next
  case (Cons f fs)
  let ?r = "denoRemove ev f (emit (LogRemovingOld f) s)"
  have a: "keeps R s (fst ?r)"
    using Cons.prems denoRemove_keeps [of f R "emit (LogRemovingOld f) s" ev] by simp
  have tail: "\<And>s'. keeps R s' (removeDuplicates ev fs s')"
    using Cons.prems by (auto intro: Cons.IH)
  show ?case
  proof (cases "snd ?r")
    case (Inl e)
    from keeps_trans [OF a tail [of "emit (LogCouldNotRemove f e) (fst ?r)", simplified]] Inl
    show ?thesis by (simp add: case_prod_beta)
  next
    case (Inr u)
    from keeps_trans [OF a tail [of "fst ?r"]] Inr show ?thesis
      by (simp add: case_prod_beta)
  qed
qed

lemma processModDownload_try_keeps:
  "keeps (set cur) s (fst (processModDownload_try ev cfg md cur s))"
proof (cases "resolveTarget ev cfg md")
  case (Inl e)
  then show ?thesis by (simp add: processModDownload_try_def)
next
  case (Inr r)
  obtain fn u v where r: "r = (fn, u, v)" by (cases r) auto
  let ?s1 = "removeDuplicates ev (duplicatesOf md fn cur) s"
  have s1: "keeps (set cur) s ?s1"
    using duplicatesOf_subset [of md fn cur] by (rule removeDuplicates_keeps)
  let ?d = "downloadFile ev u fn (emit (LogDownloading (name md)) ?s1)"
  have "keeps (set cur) ?s1 (fst ?d)"
    using downloadFile_keeps [of "set cur" "emit (LogDownloading (name md)) ?s1" ev u fn] by simp
  with s1 have d: "keeps (set cur) s (fst ?d)" by (rule keeps_trans)
  show ?thesis
    using Inr r s1 d
    by (simp add: processModDownload_try_def Let_def case_prod_beta split: sum.splits)
qed

lemma processModDownload_keeps:
  "keeps (set cur) s (fst (processModDownload ev cfg md cur s))"
  using processModDownload_try_keeps [of cur s ev cfg md]
  by (simp add: processModDownload_def case_prod_beta split: sum.splits)

lemma processLoop_keeps: "keeps (set cur) s (fst (processLoop ev cfg cur ms s))"
proof (induction ms arbitrary: s)
  case Nil
  show ?case by simp
next
  case (Cons md ms)
  from processModDownload_keeps Cons.IH show ?case
    unfolding processLoop_Cons by (rule keeps_trans)
qed

lemma pruneLoop_keeps:
  "set cur \<subseteq> R \<Longrightarrow> keeps R s (fst (pruneLoop ev names cur s))"
proof (induction cur arbitrary: s)
  case Nil
  show ?case by simp
next
  case (Cons f fs)
  let ?r = "denoRemove ev f (emit (LogRemovingUnlisted f) s)"
  have a: "keeps R s (fst ?r)"
    using Cons.prems denoRemove_keeps [of f R "emit (LogRemovingUnlisted f) s" ev] by simp
  have tail: "\<And>s'. keeps R s' (fst (pruneLoop ev names fs s'))"
    using Cons.prems by (auto intro: Cons.IH)
  from a tail [of s] keeps_trans [OF a tail [of "fst ?r"]] show ?case
    by (simp add: case_prod_beta split: sum.splits)
qed

lemma pruneBlock_keeps: "keeps (set cur) s (fst (pruneBlock ev cfg cur s))"
  using pruneLoop_keeps [of cur "set cur" "emit LogPruneActive s" ev]
  by (simp add: pruneBlock_def)

lemma syncMods_keeps: "keeps (set (getCurrentMods ev s)) s (fst (syncMods ev cfg s))"
proof (cases rule: syncMods_cases [of ev cfg s])
  case (aborted e)
  then show ?thesis by (simp add: pruneBlock_keeps)
next
  case completed
  from pruneBlock_keeps processLoop_keeps have
    "keeps (set (getCurrentMods ev s)) s
       (fst (processLoop ev cfg (getCurrentMods ev s) (mods cfg)
               (fst (pruneBlock ev cfg (getCurrentMods ev s) s))))"
    by (rule keeps_trans)
  with completed show ?thesis by simp
qed

lemma getCurrentMods_listed:
  "g \<in> set (getCurrentMods ev s) \<Longrightarrow> endsWithJar g \<and> (\<exists>bs. (g, RegularFile bs) \<in> set (dir s))"
proof -
  assume "g \<in> set (getCurrentMods ev s)"
  then obtain e where "(g, e) \<in> set (dir s)" "isFile e" "endsWithJar g"
    by (auto simp: getCurrentMods_def split: if_splits)
  then show ?thesis by (cases e) auto
qed

lemma pruneEventOf_remove: "pruneEventOf cur (IoRemove g) \<Longrightarrow> g \<in> set cur"
  by simp

lemma removals_listed:
  "list_all (pruneEventOf cur) tp \<Longrightarrow> list_all (entryEventOf cur) te
   \<Longrightarrow> IoRemove g \<in> set (tp @ te) \<Longrightarrow> g \<in> set cur"
  by (auto simp: list_all_iff)

text \<open>
  C10. Every \<open>Deno.remove\<close> a sync pass issues, in the pruning block or for an entry's
  stale variants, is for a name of the directory listing; the listing holds only regular
  files whose name ends in \<open>.jar\<close>. So, whatever the manifest and the prune setting, no
  removal is issued for a name that does not end in \<open>.jar\<close>, and such a file is still in
  the directory after the pass.
\<close>

theorem non_jar_never_deleted:
  "\<exists>t. trace (fst (syncMods ev cfg s)) = trace s @ t
     \<and> (\<forall>g. IoRemove g \<in> set t \<longrightarrow> g \<in> set (getCurrentMods ev s))
     \<and> (\<forall>g \<in> set (getCurrentMods ev s). endsWithJar g \<and> (\<exists>bs. (g, RegularFile bs) \<in> set (dir s)))
     \<and> (\<forall>f. \<not> endsWithJar f \<longrightarrow>
           IoRemove f \<notin> set t
           \<and> (map_of (dir s) f \<noteq> None \<longrightarrow> map_of (dir (fst (syncMods ev cfg s))) f \<noteq> None))"
proof -
  let ?cur = "getCurrentMods ev s"
  obtain tp te where t: "trace (fst (syncMods ev cfg s)) = trace s @ tp @ te"
      "list_all (pruneEventOf ?cur) tp" "list_all (entryEventOf ?cur) te"
    using syncMods_trace [of ev cfg s] by blast
  have rem: "\<And>g. IoRemove g \<in> set (tp @ te) \<Longrightarrow> g \<in> set ?cur"
    using t(2,3) by (rule removals_listed)
  have listed: "\<And>g. g \<in> set ?cur \<Longrightarrow> endsWithJar g \<and> (\<exists>bs. (g, RegularFile bs) \<in> set (dir s))"
    by (rule getCurrentMods_listed)
  have kept: "\<And>f. \<not> endsWithJar f \<Longrightarrow> map_of (dir s) f \<noteq> None
                \<Longrightarrow> map_of (dir (fst (syncMods ev cfg s))) f \<noteq> None"
    using syncMods_keeps [of ev s cfg] listed by (auto simp: keeps_def)
  show ?thesis
    using t(1) rem listed kept by (intro exI [of _ "tp @ te"]) blast
qed

theorem non_jar_never_deleted_witness:
  "\<not> endsWithJar ''notes.txt'' \<and> \<not> endsWithJar ''backup.jar.bak''
   \<and> map_of (dir notesState) ''notes.txt'' \<noteq> None
   \<and> map_of (dir (fst (syncMods (syncEnv (\<lambda>u. Body exampleJar)) (manifestOf None [customMod]) notesState))) ''notes.txt'' \<noteq> None
   \<and> map_of (dir (fst (syncMods (syncEnv (\<lambda>u. Body exampleJar)) (manifestOf None [customMod]) notesState))) ''backup.jar.bak'' \<noteq> None
   \<and> map_of (dir (fst (syncMods (syncEnv (\<lambda>u. Body exampleJar)) (manifestOf None [customMod]) notesState))) ''leftover.jar'' = None"
proof -
  have a: "\<not> endsWithJar ''notes.txt''" "\<not> endsWithJar ''backup.jar.bak''"
    unfolding endsWithJar_def by code_simp+
  have b: "map_of (dir notesState) ''notes.txt'' \<noteq> None" "map_of (dir notesState) ''backup.jar.bak'' \<noteq> None"
    by (simp_all add: notesState_def)
  have c: "map_of (dir (fst (syncMods (syncEnv (\<lambda>u. Body exampleJar)) (manifestOf None [customMod]) notesState))) ''leftover.jar'' = None"
    by code_simp
  from non_jar_never_deleted [of "syncEnv (\<lambda>u. Body exampleJar)" "manifestOf None [customMod]" notesState]
    a b c show ?thesis by blast
qed


lemma pruneEventOf_not_entry: "pruneEventOf cur e \<Longrightarrow> \<not> isEntryEvent e"
  by (cases e) auto

lemma entryEventOf_not_orphan: "entryEventOf cur e \<Longrightarrow> \<not> isOrphanRemoval e"
  by (cases e) auto

text \<open>
  C2 (as amended). The pruning block runs before the loop over the manifest entries: what a
  pass adds to the trace is first the events of the pruning block, among them every
  removal of an unlisted file, and then the events of the entries. No unlisted file is
  removed once the first entry has been looked at.
\<close>

theorem prune_precedes_entries:
  "\<exists>tp te. trace (fst (syncMods ev cfg s)) = trace s @ tp @ te
      \<and> list_all (\<lambda>e. \<not> isEntryEvent e) tp
      \<and> list_all (\<lambda>e. \<not> isOrphanRemoval e) te"
proof -
  obtain tp te where t: "trace (fst (syncMods ev cfg s)) = trace s @ tp @ te"
      "list_all (pruneEventOf (getCurrentMods ev s)) tp"
      "list_all (entryEventOf (getCurrentMods ev s)) te"
    using syncMods_trace [of ev cfg s] by blast
  from t(2) have "list_all (\<lambda>e. \<not> isEntryEvent e) tp"
    by (auto simp: list_all_iff dest: pruneEventOf_not_entry)
  moreover from t(3) have "list_all (\<lambda>e. \<not> isOrphanRemoval e) te"
    by (auto simp: list_all_iff dest: entryEventOf_not_orphan)
  ultimately show ?thesis using t(1) by blast
qed

theorem prune_precedes_entries_witness:
  "\<exists>tp te. trace (fst (syncMods (syncEnv (\<lambda>u. Body exampleJar)) (manifestOf None [customMod]) leftoverState))
              = trace leftoverState @ tp @ te
      \<and> list_all (\<lambda>e. \<not> isEntryEvent e) tp
      \<and> list_all (\<lambda>e. \<not> isOrphanRemoval e) te"
  by (rule prune_precedes_entries)

text \<open>With one unlisted file and one entry to install, the unlisted file is removed
  before the entry is downloaded.\<close>

theorem prune_after_entries_counterexample:
  "trace (fst (syncMods (syncEnv (\<lambda>u. Body exampleJar)) (manifestOf None [customMod]) leftoverState))
     = [LogPruneActive, LogRemovingUnlisted ''leftover.jar'', IoRemove ''leftover.jar'',
        LogDownloading ''Custom Mod'',
        IoDownload ''https://example.com/mod.jar'' ''custom-mod-1.0.0.jar'',
        LogInstalled ''custom-mod-1.0.0.jar'']
   \<and> \<not> pruneAfterEntries
         (trace (fst (syncMods (syncEnv (\<lambda>u. Body exampleJar)) (manifestOf None [customMod]) leftoverState)))"
  by code_simp

subsection \<open>Isolation of entry failures\<close>

lemma onlyFilesAdded_refl [simp]: "onlyFilesAdded s s"
  by (simp add: onlyFilesAdded_def)

lemma onlyFilesAdded_trans: "onlyFilesAdded s s1 \<Longrightarrow> onlyFilesAdded s1 s2 \<Longrightarrow> onlyFilesAdded s s2"
  unfolding onlyFilesAdded_def by blast

lemma onlyFilesAdded_emit_left [simp]: "onlyFilesAdded (emit e s) s' = onlyFilesAdded s s'"
  by (simp add: onlyFilesAdded_def)

lemma onlyFilesAdded_emit_right [simp]: "onlyFilesAdded s (emit e s') = onlyFilesAdded s s'"
  by (simp add: onlyFilesAdded_def)

lemma denoRemove_onlyFilesAdded: "onlyFilesAdded s (fst (denoRemove ev n s))"
  by (auto simp: denoRemove_def Let_def onlyFilesAdded_def emit_def delete_conv' split: if_splits)

lemma downloadFile_onlyFilesAdded: "onlyFilesAdded s (fst (downloadFile ev u p s))"
  by (auto simp: downloadFile_def Let_def onlyFilesAdded_def emit_def update_conv'
           split: fetch_result.splits option.splits dir_entry.splits if_splits)

lemma removeDuplicates_onlyFilesAdded: "onlyFilesAdded s (removeDuplicates ev fs s)"
proof (induction fs arbitrary: s)
  case Nil
  show ?case by simp
next
  case (Cons f fs)
  let ?r = "denoRemove ev f (emit (LogRemovingOld f) s)"
  have a: "onlyFilesAdded s (fst ?r)"
    using denoRemove_onlyFilesAdded [of "emit (LogRemovingOld f) s" ev f] by simp
  show ?case
  proof (cases "snd ?r")
    case (Inl e)
    from onlyFilesAdded_trans [OF a Cons.IH [of "emit (LogCouldNotRemove f e) (fst ?r)", simplified]] Inl
    show ?thesis by (simp add: case_prod_beta)
  next
    case (Inr u)
    from onlyFilesAdded_trans [OF a Cons.IH [of "fst ?r"]] Inr show ?thesis
      by (simp add: case_prod_beta)
  qed
qed

lemma processModDownload_try_onlyFilesAdded:
  "onlyFilesAdded s (fst (processModDownload_try ev cfg md cur s))"
proof (cases "resolveTarget ev cfg md")
  case (Inl e)
  then show ?thesis by (simp add: processModDownload_try_def)
next
  case (Inr r)
  obtain fn u v where r: "r = (fn, u, v)" by (cases r) auto
  let ?s1 = "removeDuplicates ev (duplicatesOf md fn cur) s"
  have s1: "onlyFilesAdded s ?s1"
    by (rule removeDuplicates_onlyFilesAdded)
  let ?d = "downloadFile ev u fn (emit (LogDownloading (name md)) ?s1)"
  have "onlyFilesAdded ?s1 (fst ?d)"
    using downloadFile_onlyFilesAdded [of "emit (LogDownloading (name md)) ?s1" ev u fn] by simp
  with s1 have d: "onlyFilesAdded s (fst ?d)" by (rule onlyFilesAdded_trans)
  show ?thesis
    using Inr r s1 d
    by (simp add: processModDownload_try_def Let_def case_prod_beta split: sum.splits)
qed

lemma processModDownload_onlyFilesAdded:
  "onlyFilesAdded s (fst (processModDownload ev cfg md cur s))"
  using processModDownload_try_onlyFilesAdded [of s ev cfg md cur]
  by (simp add: processModDownload_def case_prod_beta split: sum.splits)

lemma processLoop_onlyFilesAdded: "onlyFilesAdded s (fst (processLoop ev cfg cur ms s))"
proof (induction ms arbitrary: s)
  case Nil
  show ?case by simp
next
  case (Cons md ms)
  from processModDownload_onlyFilesAdded Cons.IH show ?case
    unfolding processLoop_Cons by (rule onlyFilesAdded_trans)
qed


lemma onlyFilesAdded_noNonFile:
  assumes "onlyFilesAdded s s'" and "\<forall>k. map_of (dir s) f \<noteq> Some (NonFile k)"
  shows "map_of (dir s') f \<noteq> Some (NonFile k)"
proof
  assume a: "map_of (dir s') f = Some (NonFile k)"
  with assms(1) have "map_of (dir s) f = Some (NonFile k) \<or> isFile (NonFile k)"
    unfolding onlyFilesAdded_def by blast
  with assms(2) show False by simp
qed


lemma validateJarFile_ok:
  "map_of (dir s) p = Some (RegularFile bs) \<Longrightarrow> bs \<noteq> [] \<Longrightarrow> take 4 bs = jarSignature
   \<Longrightarrow> validateJarFile p s = (s, Inr ())"
  using readBuffer4_signature [of bs]
  by (simp add: validateJarFile_def Let_def)

lemma downloadFile_ok:
  assumes "u \<noteq> []" and "fetch_url ev u = Body bs"
      and "\<not> open_denied ev p \<and> write_limit ev p = None"
      and "map_of (dir s) p = None \<or> map_of (dir s) p = Some (RegularFile [])"
  shows "snd (downloadFile ev u p s) = Inr ()
         \<and> map_of (dir (fst (downloadFile ev u p s))) p = Some (RegularFile bs)
         \<and> trace (fst (downloadFile ev u p s)) = trace s @ [IoDownload u p]"
  using assms by (auto simp: downloadFile_def accepted_def Let_def update_conv' overwrite_def)

lemma processModDownload_good:
  assumes res: "resolveTarget ev cfg md = Inr (fn, u, v)"
      and u: "u \<noteq> []" and body: "fetch_url ev u = Body bs"
      and op: "\<not> open_denied ev fn \<and> write_limit ev fn = None"
      and jar: "bs \<noteq> []" "take 4 bs = jarSignature"
      and nf: "\<forall>k. map_of (dir s) fn \<noteq> Some (NonFile k)"
  shows "(last (trace (fst (processModDownload ev cfg md cur s))) = LogVerified (name md)
          \<or> last (trace (fst (processModDownload ev cfg md cur s))) = LogInstalled fn)
         \<and> (\<exists>bs'. map_of (dir (fst (processModDownload ev cfg md cur s))) fn = Some (RegularFile bs')
                   \<and> bs' \<noteq> [])"
proof -
  let ?s1 = "removeDuplicates ev (duplicatesOf md fn cur) s"
  have nf1: "\<And>k. map_of (dir ?s1) fn \<noteq> Some (NonFile k)"
    using removeDuplicates_onlyFilesAdded [of s ev "duplicatesOf md fn cur"] nf
    by (rule onlyFilesAdded_noNonFile)
  show ?thesis
  proof (cases "case map_of (dir ?s1) fn of None \<Rightarrow> False | Some e \<Rightarrow> statSize e > 0")
    case True
    then obtain bs' where "map_of (dir ?s1) fn = Some (RegularFile bs')" "bs' \<noteq> []"
      using nf1 by (auto split: option.splits) (metis dir_entry.exhaust length_greater_0_conv statSize.simps(1))
    with True res show ?thesis
      by (simp add: processModDownload_def processModDownload_try_def Let_def)
  next
    case False
    then have absent: "map_of (dir ?s1) fn = None \<or> map_of (dir ?s1) fn = Some (RegularFile [])"
      using nf1 by (auto split: option.splits) (metis dir_entry.exhaust length_0_conv statSize.simps(1))
    let ?d = "downloadFile ev u fn (emit (LogDownloading (name md)) ?s1)"
    from absent have "map_of (dir (emit (LogDownloading (name md)) ?s1)) fn = None
        \<or> map_of (dir (emit (LogDownloading (name md)) ?s1)) fn = Some (RegularFile [])"
      by simp
    from downloadFile_ok [OF u body op this]
    have d: "snd ?d = Inr ()" "map_of (dir (fst ?d)) fn = Some (RegularFile bs)" by simp_all
    from validateJarFile_ok [OF d(2) jar] have val: "validateJarFile fn (fst ?d) = (fst ?d, Inr ())" .
    from False res d val jar show ?thesis
      by (simp add: processModDownload_def processModDownload_try_def Let_def case_prod_beta)
  qed
qed

text \<open>
  C4. \<open>processModDownload\<close> never lets an error out: whatever goes wrong for an entry in
  resolution, stale-file removal, download or validation ends in its \<open>catch\<close>, which
  prints the error for that entry. The loop of \<open>syncMods\<close> therefore goes on with the
  entries that follow, and an entry that follows any number of entries (failed or not)
  can still end verified or installed: it does whenever its own resolution succeeds, the
  download answers with a valid archive, the platform lets the file be opened for
  writing and refuses no write to it, and nothing but a file is at the expected path; its
  expected file is then in the directory and not empty.
\<close>

theorem entry_errors_isolated:
  "snd (processModDownload ev cfg md cur s) = Inr ()
   \<and> (\<forall>s1 e. processModDownload_try ev cfg md cur s = (s1, Inl e)
         \<longrightarrow> fst (processModDownload ev cfg md cur s) = emit (LogErrorProcessing (name md) e) s1)
   \<and> processLoop ev cfg cur (pre @ md # post) s
       = processLoop ev cfg cur post
           (fst (processModDownload ev cfg md cur (fst (processLoop ev cfg cur pre s))))
   \<and> (\<forall>fn u v bs.
         resolveTarget ev cfg md = Inr (fn, u, v) \<and> u \<noteq> [] \<and> fetch_url ev u = Body bs
         \<and> \<not> open_denied ev fn \<and> write_limit ev fn = None
         \<and> bs \<noteq> [] \<and> take 4 bs = jarSignature \<and> (\<forall>k. map_of (dir s) fn \<noteq> Some (NonFile k))
         \<longrightarrow> (last (trace (fst (processModDownload ev cfg md cur (fst (processLoop ev cfg cur pre s)))))
                  = LogVerified (name md)
               \<or> last (trace (fst (processModDownload ev cfg md cur (fst (processLoop ev cfg cur pre s)))))
                  = LogInstalled fn)
              \<and> (\<exists>bs'. map_of (dir (fst (processModDownload ev cfg md cur (fst (processLoop ev cfg cur pre s))))) fn
                          = Some (RegularFile bs') \<and> bs' \<noteq> []))"
proof (intro conjI allI impI)
  show "snd (processModDownload ev cfg md cur s) = Inr ()"
    by (rule processModDownload_never_throws)
next
  fix s1 e
  assume "processModDownload_try ev cfg md cur s = (s1, Inl e)"
  then show "fst (processModDownload ev cfg md cur s) = emit (LogErrorProcessing (name md) e) s1"
    by (simp add: processModDownload_def)
next
  show "processLoop ev cfg cur (pre @ md # post) s
       = processLoop ev cfg cur post
           (fst (processModDownload ev cfg md cur (fst (processLoop ev cfg cur pre s))))"
    by (simp add: processLoop_append processLoop_Cons del: processLoop.simps(2))
next
  fix fn u v bs
  let ?s = "fst (processLoop ev cfg cur pre s)"
  assume h: "resolveTarget ev cfg md = Inr (fn, u, v) \<and> u \<noteq> [] \<and> fetch_url ev u = Body bs
         \<and> \<not> open_denied ev fn \<and> write_limit ev fn = None
         \<and> bs \<noteq> [] \<and> take 4 bs = jarSignature \<and> (\<forall>k. map_of (dir s) fn \<noteq> Some (NonFile k))"
  then have "\<forall>k. map_of (dir s) fn \<noteq> Some (NonFile k)" by simp
  with processLoop_onlyFilesAdded [of s ev cfg cur pre]
  have nf: "\<forall>k. map_of (dir ?s) fn \<noteq> Some (NonFile k)"
    by (auto dest: onlyFilesAdded_noNonFile)
  from h have "resolveTarget ev cfg md = Inr (fn, u, v)" "u \<noteq> []" "fetch_url ev u = Body bs"
      "\<not> open_denied ev fn \<and> write_limit ev fn = None" "bs \<noteq> []" "take 4 bs = jarSignature"
      by simp_all
  from processModDownload_good [OF this nf, of cur]
  show "last (trace (fst (processModDownload ev cfg md cur ?s))) = LogVerified (name md)
          \<or> last (trace (fst (processModDownload ev cfg md cur ?s))) = LogInstalled fn"
    and "\<exists>bs'. map_of (dir (fst (processModDownload ev cfg md cur ?s))) fn = Some (RegularFile bs') \<and> bs' \<noteq> []"
    by simp_all
qed


theorem entry_errors_isolated_witness:
  "trace (fst (processLoop (syncEnv (\<lambda>u. Body exampleJar)) (manifestOf None [unknownMod, customMod]) []
                 [unknownMod] emptyState))
     = [LogErrorProcessing ''Ghost'' (ModrinthError NetworkError)]
   \<and> (last (trace (fst (processLoop (syncEnv (\<lambda>u. Body exampleJar)) (manifestOf None [unknownMod, customMod]) []
                         [unknownMod, customMod] emptyState)))
          = LogVerified ''Custom Mod''
        \<or> last (trace (fst (processLoop (syncEnv (\<lambda>u. Body exampleJar)) (manifestOf None [unknownMod, customMod]) []
                         [unknownMod, customMod] emptyState)))
          = LogInstalled ''custom-mod-1.0.0.jar'')
   \<and> (\<exists>bs'. map_of (dir (fst (processLoop (syncEnv (\<lambda>u. Body exampleJar)) (manifestOf None [unknownMod, customMod]) []
                                  [unknownMod, customMod] emptyState))) ''custom-mod-1.0.0.jar''
               = Some (RegularFile bs') \<and> bs' \<noteq> [])"
proof -
  let ?E = "syncEnv (\<lambda>u. Body exampleJar)"
  let ?C = "manifestOf None [unknownMod, customMod]"
  have failed: "trace (fst (processLoop ?E ?C [] [unknownMod] emptyState))
                  = [LogErrorProcessing ''Ghost'' (ModrinthError NetworkError)]"
    by code_simp
  have res: "resolveTarget ?E ?C customMod
               = Inr (''custom-mod-1.0.0.jar'', ''https://example.com/mod.jar'', ''1.0.0'')"
    by code_simp
  have hyps: "resolveTarget ?E ?C customMod
               = Inr (''custom-mod-1.0.0.jar'', ''https://example.com/mod.jar'', ''1.0.0'')
     \<and> ''https://example.com/mod.jar'' \<noteq> [] \<and> fetch_url ?E ''https://example.com/mod.jar'' = Body exampleJar
     \<and> \<not> open_denied ?E ''custom-mod-1.0.0.jar''
     \<and> write_limit ?E ''custom-mod-1.0.0.jar'' = None
     \<and> exampleJar \<noteq> [] \<and> take 4 exampleJar = jarSignature
     \<and> (\<forall>k. map_of (dir emptyState) ''custom-mod-1.0.0.jar'' \<noteq> Some (NonFile k))"
    using res by (simp add: syncEnv_def exampleJar_def jarSignature_def emptyState_def)
  note inst = entry_errors_isolated [of ?E ?C customMod "[]" emptyState "[unknownMod]" "[]"]
  from inst have loop: "processLoop ?E ?C [] [unknownMod, customMod] emptyState
       = processLoop ?E ?C [] []
           (fst (processModDownload ?E ?C customMod [] (fst (processLoop ?E ?C [] [unknownMod] emptyState))))"
    by simp
  from inst hyps have
    "(last (trace (fst (processModDownload ?E ?C customMod [] (fst (processLoop ?E ?C [] [unknownMod] emptyState)))))
         = LogVerified (name customMod)
      \<or> last (trace (fst (processModDownload ?E ?C customMod [] (fst (processLoop ?E ?C [] [unknownMod] emptyState)))))
         = LogInstalled ''custom-mod-1.0.0.jar'')
     \<and> (\<exists>bs'. map_of (dir (fst (processModDownload ?E ?C customMod [] (fst (processLoop ?E ?C [] [unknownMod] emptyState)))))
                  ''custom-mod-1.0.0.jar'' = Some (RegularFile bs') \<and> bs' \<noteq> [])"
    by blast
  moreover have "name customMod = ''Custom Mod''" by (simp add: customMod_def)
  ultimately show ?thesis
    using failed unfolding loop by simp
qed

text \<open>
  C3. The entry of the example manifest is downloaded into an empty directory and the
  server answers with a page that is not an archive. \<open>validateJarFile\<close> rejects it and the
  error is printed for the entry, but the file stays at the expected path: nothing in
  \<open>processModDownload\<close> removes it. The next pass finds a non-empty file there and
  reports the entry as verified. \<open>downloadMod\<close>, which nothing calls, does remove the
  file for the same entry and the same answer.
\<close>

theorem invalid_download_left_in_place:
  "trace (fst (syncMods (syncEnv (\<lambda>u. Body htmlPage)) (manifestOf None [customMod]) emptyState))
     = [LogPruneActive, LogDownloading ''Custom Mod'',
        IoDownload ''https://example.com/mod.jar'' ''custom-mod-1.0.0.jar'',
        LogErrorProcessing ''Custom Mod'' (InvalidJar NotAJar)]
   \<and> map_of (dir (fst (syncMods (syncEnv (\<lambda>u. Body htmlPage)) (manifestOf None [customMod]) emptyState)))
        ''custom-mod-1.0.0.jar'' = Some (RegularFile htmlPage)
   \<and> last (trace (fst (syncMods (syncEnv (\<lambda>u. Body htmlPage)) (manifestOf None [customMod])
                    (fst (syncMods (syncEnv (\<lambda>u. Body htmlPage)) (manifestOf None [customMod]) emptyState)))))
        = LogVerified ''Custom Mod''
   \<and> downloadMod (syncEnv (\<lambda>u. Body htmlPage)) (manifestOf None [customMod]) customMod
        ''custom-mod-1.0.0.jar'' emptyState
       = (\<lparr>dir = [], trace = [IoDownload ''https://example.com/mod.jar'' ''custom-mod-1.0.0.jar'',
                                  IoRemove ''custom-mod-1.0.0.jar'']\<rparr>,
          Inl (DownloadModError (InvalidJar NotAJar)))"
  by code_simp

subsection \<open>The pruning toggle\<close>




















subsection \<open>A second pass\<close>










lemma getCurrentMods_trace [simp]: "getCurrentMods ev (s\<lparr>trace := t\<rparr>) = getCurrentMods ev s"
  by (simp add: getCurrentMods_def)



subsection \<open>A first pass converges\<close>

lemma addsOnly_refl [simp]: "addsOnly T s s"
  by (simp add: addsOnly_def)


lemma addsOnly_mono: "addsOnly T s s' \<Longrightarrow> T \<subseteq> T' \<Longrightarrow> addsOnly T' s s'"
  unfolding addsOnly_def by blast

lemma addsOnly_emit_left [simp]: "addsOnly T (emit e s) s' = addsOnly T s s'"
  by (simp add: addsOnly_def)

lemma addsOnly_emit_right [simp]: "addsOnly T s (emit e s') = addsOnly T s s'"
  by (simp add: addsOnly_def)





















lemma pruneLoop_map_sub:
  "map_of (dir (fst (pruneLoop ev names cur s))) f = Some e \<Longrightarrow> map_of (dir s) f = Some e"
proof (induction cur arbitrary: s)
  case Nil
  then show ?case by simp
next
  case (Cons g gs)
  let ?r = "denoRemove ev g (emit (LogRemovingUnlisted g) s)"
  have d: "map_of (dir (fst ?r)) f = Some e \<Longrightarrow> map_of (dir s) f = Some e"
    by (auto simp: denoRemove_def Let_def delete_conv' split: if_splits)
  from Cons.prems Cons.IH [of s] Cons.IH [of "fst ?r"] d show ?case
    by (auto simp: case_prod_beta split: sum.splits if_splits)
qed

lemma pruneBlock_onlyFilesAdded: "onlyFilesAdded s (fst (pruneBlock ev cfg cur s))"
  using pruneLoop_map_sub [of ev _ cur "emit LogPruneActive s"]
  by (auto simp: onlyFilesAdded_def pruneBlock_def)









end
